theory Spec2Isabelle
  imports Complex_Main
begin

section \<open>Data model (types/calendar.ts)\<close>

text \<open>
  The interfaces of \<^verbatim>\<open>types/calendar.ts\<close> as records. A field that TypeScript marks
  optional (\<^verbatim>\<open>urls?: string[]\<close>) is an \<open>option\<close>; \<^verbatim>\<open>number\<close> fields that hold
  integers are \<open>int\<close>. A browser \<^verbatim>\<open>File\<close> is represented by the three properties
  the program reads from it.
\<close>

record file_handle =
  f_name :: string
  f_type :: string
  f_size :: nat

record attachment =
  fileData :: "string option"
  fileName :: string
  fileType :: string
  fileObj :: "file_handle option"

record app_link =
  al_name :: string
  al_url :: "string option"

record template =
  t_id :: string
  t_name :: string
  t_description :: string
  t_color :: string
  t_duration :: int
  t_urls :: "string list option"
  t_apps :: "app_link list option"
  t_attachments :: "attachment list option"

record calendar_event =
  e_id :: string
  e_templateId :: string
  e_template :: template
  e_startTime :: string
  e_endTime :: string
  e_day :: int

datatype view_mode = Week | Month

record calendar_data =
  c_id :: string
  c_name :: string
  templates :: "template list"
  events :: "calendar_event list"

text \<open>
  An object literal passed as \<^verbatim>\<open>Omit<Template, 'id'>\<close> may leave an optional key out,
  or carry it with the value \<^verbatim>\<open>undefined\<close> (the template form passes
  \<^verbatim>\<open>apps: undefined\<close>), or carry a value. Object spread treats the three differently.
\<close>

datatype 'a opt_key = Absent | Given "'a option"

fun spread_key :: "'a option \<Rightarrow> 'a opt_key \<Rightarrow> 'a option" where
  "spread_key old Absent = old"
| "spread_key old (Given v) = v"

record template_data =
  td_name :: string
  td_description :: string
  td_color :: string
  td_duration :: int
  td_urls :: "string list opt_key"
  td_apps :: "app_link list opt_key"
  td_attachments :: "attachment list opt_key"

text \<open>The argument of \<^verbatim>\<open>addEvent\<close>: an event without id, with the template to copy.\<close>

record event_data =
  ed_templateId :: string
  ed_template :: template
  ed_startTime :: string
  ed_endTime :: string
  ed_day :: int

text \<open>\<^verbatim>\<open>Partial<CalendarEvent>\<close>: every key may be missing.\<close>

record event_updates =
  u_id :: "string option"
  u_templateId :: "string option"
  u_template :: "template option"
  u_startTime :: "string option"
  u_endTime :: "string option"
  u_day :: "int option"

section \<open>The store hook (useCalendar)\<close>

text \<open>
  The React state of \<^verbatim>\<open>useCalendar\<close> as a record; every setter of the hook is a
  function from state to state.
\<close>

record store =
  calendars :: "calendar_data list"
  selectedCalendarId :: "string option"
  viewMode :: view_mode
  selectedTemplate :: "template option"

text \<open>\<^verbatim>\<open>Number.prototype.toString()\<close> on a non-negative integer: its decimal digits.\<close>

definition digit_char :: "nat \<Rightarrow> char" where
  "digit_char d = char_of (48 + d)"

fun toString :: "nat \<Rightarrow> string" where
  "toString n = (if n < 10 then [digit_char n] else toString (n div 10) @ [digit_char (n mod 10)])"

declare toString.simps [simp del]

text \<open>\<^verbatim>\<open>prev => (prev?.id === template.id ? null : template)\<close>\<close>

definition selectTemplate_upd :: "template option \<Rightarrow> template \<Rightarrow> template option" where
  "selectTemplate_upd prev tmpl =
     (case prev of
        None \<Rightarrow> Some tmpl
      | Some p \<Rightarrow> if t_id p = t_id tmpl then None else Some tmpl)"

definition selectTemplate :: "template \<Rightarrow> store \<Rightarrow> store" where
  "selectTemplate tmpl s = s\<lparr>selectedTemplate := selectTemplate_upd (selectedTemplate s) tmpl\<rparr>"

definition clearSelection :: "store \<Rightarrow> store" where
  "clearSelection s = s\<lparr>selectedTemplate := None\<rparr>"

text \<open>\<^verbatim>\<open>calendars.find(c => c.id === selectedCalendarId) || calendars[0]\<close>\<close>

definition selectedCalendar :: "store \<Rightarrow> calendar_data option" where
  "selectedCalendar s =
     (case (case selectedCalendarId s of
              None \<Rightarrow> None
            | Some i \<Rightarrow> find (\<lambda>c. c_id c = i) (calendars s)) of
        Some c \<Rightarrow> Some c
      | None \<Rightarrow> (case calendars s of [] \<Rightarrow> None | c # _ \<Rightarrow> Some c))"

definition addCalendar :: "nat \<Rightarrow> string \<Rightarrow> store \<Rightarrow> store" where
  "addCalendar now name s =
     (let i = toString now;
          newCal = \<lparr>c_id = i, c_name = name, templates = [], events = []\<rparr>
      in s\<lparr>calendars := calendars s @ [newCal], selectedCalendarId := Some i\<rparr>)"

definition selectCalendar :: "string \<Rightarrow> store \<Rightarrow> store" where
  "selectCalendar i s = s\<lparr>selectedCalendarId := Some i\<rparr>"

definition updateCalendar ::
  "string \<Rightarrow> (calendar_data \<Rightarrow> calendar_data) \<Rightarrow> store \<Rightarrow> store" where
  "updateCalendar i updater s =
     s\<lparr>calendars := map (\<lambda>c. if c_id c = i then updater c else c) (calendars s)\<rparr>"

definition new_template :: "nat \<Rightarrow> template_data \<Rightarrow> template" where
  "new_template now d =
     \<lparr>t_id = toString now, t_name = td_name d, t_description = td_description d,
      t_color = td_color d, t_duration = td_duration d,
      t_urls = spread_key None (td_urls d),
      t_apps = spread_key None (td_apps d),
      t_attachments = spread_key None (td_attachments d)\<rparr>"

definition addTemplate :: "nat \<Rightarrow> template_data \<Rightarrow> store \<Rightarrow> store" where
  "addTemplate now d s =
     (case selectedCalendar s of
        None \<Rightarrow> s
      | Some sel \<Rightarrow>
          updateCalendar (c_id sel)
            (\<lambda>cal. cal\<lparr>templates := templates cal @ [new_template now d]\<rparr>) s)"

text \<open>\<^verbatim>\<open>{ ...t, ...templateData, id: templateId }\<close>\<close>

definition merge_template :: "string \<Rightarrow> template_data \<Rightarrow> template \<Rightarrow> template" where
  "merge_template templateId d t =
     \<lparr>t_id = templateId, t_name = td_name d, t_description = td_description d,
      t_color = td_color d, t_duration = td_duration d,
      t_urls = spread_key (t_urls t) (td_urls d),
      t_apps = spread_key (t_apps t) (td_apps d),
      t_attachments = spread_key (t_attachments t) (td_attachments d)\<rparr>"

definition updateTemplate :: "string \<Rightarrow> template_data \<Rightarrow> store \<Rightarrow> store" where
  "updateTemplate templateId d s =
     (case selectedCalendar s of
        None \<Rightarrow> s
      | Some sel \<Rightarrow>
          updateCalendar (c_id sel)
            (\<lambda>cal. cal\<lparr>templates :=
               map (\<lambda>t. if t_id t = templateId then merge_template templateId d t else t)
                 (templates cal)\<rparr>) s)"

definition deleteTemplate :: "string \<Rightarrow> store \<Rightarrow> store" where
  "deleteTemplate templateId s =
     (case selectedCalendar s of
        None \<Rightarrow> s
      | Some sel \<Rightarrow>
          updateCalendar (c_id sel)
            (\<lambda>cal. cal\<lparr>templates := filter (\<lambda>t. t_id t \<noteq> templateId) (templates cal)\<rparr>) s)"

text \<open>
  \<^verbatim>\<open>{ ...eventData, id: Date.now().toString(), template: { ...eventData.template },
  templateId: eventData.template.id }\<close>. At the level of values the spread copy of the
  template is the template itself; the object identities are modelled separately below.
\<close>

definition new_event :: "nat \<Rightarrow> event_data \<Rightarrow> calendar_event" where
  "new_event now d =
     \<lparr>e_id = toString now, e_templateId = t_id (ed_template d), e_template = ed_template d,
      e_startTime = ed_startTime d, e_endTime = ed_endTime d, e_day = ed_day d\<rparr>"

definition addEvent :: "nat \<Rightarrow> event_data \<Rightarrow> store \<Rightarrow> store" where
  "addEvent now d s =
     (case selectedCalendar s of
        None \<Rightarrow> s
      | Some sel \<Rightarrow>
          updateCalendar (c_id sel)
            (\<lambda>cal. cal\<lparr>events := events cal @ [new_event now d]\<rparr>) s)"

definition deleteEvent :: "string \<Rightarrow> store \<Rightarrow> store" where
  "deleteEvent eventId s =
     (case selectedCalendar s of
        None \<Rightarrow> s
      | Some sel \<Rightarrow>
          updateCalendar (c_id sel)
            (\<lambda>cal. cal\<lparr>events := filter (\<lambda>e. e_id e \<noteq> eventId) (events cal)\<rparr>) s)"

text \<open>\<^verbatim>\<open>{ ...e, ...updates }\<close>\<close>

definition merge_event :: "event_updates \<Rightarrow> calendar_event \<Rightarrow> calendar_event" where
  "merge_event u e =
     \<lparr>e_id = (case u_id u of None \<Rightarrow> e_id e | Some v \<Rightarrow> v),
      e_templateId = (case u_templateId u of None \<Rightarrow> e_templateId e | Some v \<Rightarrow> v),
      e_template = (case u_template u of None \<Rightarrow> e_template e | Some v \<Rightarrow> v),
      e_startTime = (case u_startTime u of None \<Rightarrow> e_startTime e | Some v \<Rightarrow> v),
      e_endTime = (case u_endTime u of None \<Rightarrow> e_endTime e | Some v \<Rightarrow> v),
      e_day = (case u_day u of None \<Rightarrow> e_day e | Some v \<Rightarrow> v)\<rparr>"

definition updateEvent :: "string \<Rightarrow> event_updates \<Rightarrow> store \<Rightarrow> store" where
  "updateEvent eventId u s =
     (case selectedCalendar s of
        None \<Rightarrow> s
      | Some sel \<Rightarrow>
          updateCalendar (c_id sel)
            (\<lambda>cal. cal\<lparr>events :=
               map (\<lambda>e. if e_id e = eventId then merge_event u e else e) (events cal)\<rparr>) s)"

definition renameCalendar :: "string \<Rightarrow> string \<Rightarrow> store \<Rightarrow> store" where
  "renameCalendar calendarId newName s =
     s\<lparr>calendars :=
         map (\<lambda>c. if c_id c = calendarId then c\<lparr>c_name := newName\<rparr> else c) (calendars s)\<rparr>"

text \<open>
  \<^verbatim>\<open>deleteCalendar\<close>: the list is filtered; the selection is touched only when the
  selected id is the deleted id, and then becomes the id of \<^verbatim>\<open>filtered[0]\<close> or null.
\<close>

definition deleteCalendar :: "string \<Rightarrow> store \<Rightarrow> store" where
  "deleteCalendar calendarId s =
     (let filtered = filter (\<lambda>c. c_id c \<noteq> calendarId) (calendars s)
      in if selectedCalendarId s = Some calendarId
         then (case filtered of
                 c # _ \<Rightarrow> s\<lparr>calendars := filtered, selectedCalendarId := Some (c_id c)\<rparr>
               | [] \<Rightarrow> s\<lparr>calendars := filtered, selectedCalendarId := None\<rparr>)
         else s\<lparr>calendars := filtered\<rparr>)"

section \<open>The JavaScript Date object\<close>

text \<open>
  A \<^verbatim>\<open>Date\<close> holds a time value: the milliseconds since 1 January 1970 UTC, or
  \<^verbatim>\<open>NaN\<close> for an Invalid Date. A date is modelled by that value, \<open>None\<close> standing for
  \<^verbatim>\<open>NaN\<close>; so is every number read from a date. The calendar is the proleptic
  Gregorian one of ECMAScript: \<open>day_from_year\<close> is its \<^verbatim>\<open>DayFromYear\<close>, \<open>MakeDay\<close>
  its \<^verbatim>\<open>MakeDay\<close> (day number relative to 1 January 1970, a Thursday). Months count
  from 0.
\<close>

type_synonym js_date = "int option"

definition msPerDay :: int where "msPerDay = 86400000"

definition is_leap :: "int \<Rightarrow> bool" where
  "is_leap y = (y mod 4 = 0 \<and> (y mod 100 \<noteq> 0 \<or> y mod 400 = 0))"

definition days_in_month :: "int \<Rightarrow> int \<Rightarrow> int" where
  "days_in_month y m =
     (if m = 1 then (if is_leap y then 29 else 28)
      else if m = 3 \<or> m = 5 \<or> m = 8 \<or> m = 10 then 30 else 31)"

definition day_from_year :: "int \<Rightarrow> int" where
  "day_from_year y =
     365 * (y - 1970) + (y - 1969) div 4 - (y - 1901) div 100 + (y - 1601) div 400"

fun month_start :: "int \<Rightarrow> nat \<Rightarrow> int" where
  "month_start y 0 = 0"
| "month_start y (Suc m) = month_start y m + days_in_month y (int m)"

definition MakeDay :: "int \<Rightarrow> int \<Rightarrow> int \<Rightarrow> int" where
  "MakeDay y m d =
     (let ym = y + m div 12; mn = m mod 12
      in day_from_year ym + month_start ym (nat mn) + d - 1)"

text \<open>
  The time zone of the host is a parameter: the offset of local time from UTC in effect
  at a UTC instant (\<^verbatim>\<open>LocalTZA(t, true)\<close>) and the offset by which a local time is
  read (\<^verbatim>\<open>LocalTZA(t, false)\<close>), in milliseconds. Across a daylight-saving change
  the two differ from instant to instant.
\<close>

record time_zone =
  offset_at_utc :: "int \<Rightarrow> int"
  offset_at_local :: "int \<Rightarrow> int"

definition LocalTime :: "time_zone \<Rightarrow> int \<Rightarrow> int" where
  "LocalTime z t = t + offset_at_utc z t"

definition Day :: "int \<Rightarrow> int" where
  "Day t = t div msPerDay"

definition WeekDay :: "int \<Rightarrow> int" where
  "WeekDay t = (Day t + 4) mod 7"

text \<open>
  The date of a day number. A date given with a day outside its month rolls into the
  neighbouring months (\<open>norm_date\<close>); the date of day \<open>n\<close> is found by rolling day
  \<open>n\<close> of an estimated year into place. \<open>YearFromTime\<close>, \<open>MonthFromTime\<close> and
  \<open>DateFromTime\<close> are its fields.
\<close>

function norm_date :: "int \<Rightarrow> int \<Rightarrow> int \<Rightarrow> int \<times> int \<times> int" where
  "norm_date y m d =
     (if d < 1 then
        (let y' = (if m = 0 then y - 1 else y); m' = (if m = 0 then 11 else m - 1)
         in norm_date y' m' (d + days_in_month y' m'))
      else if days_in_month y m < d then
        (let y' = (if m = 11 then y + 1 else y); m' = (if m = 11 then 0 else m + 1)
         in norm_date y' m' (d - days_in_month y m))
      else (y, m, d))"
  by pat_completeness auto
termination
  by (relation "measure (\<lambda>(y, m, d). if d < 1 then nat (1 - d) + 32 else nat d)")
     (auto simp: days_in_month_def Let_def)

declare norm_date.simps [simp del]

definition civil_of_day :: "int \<Rightarrow> int \<times> int \<times> int" where
  "civil_of_day n =
     (let y = 1970 + (400 * n) div 146097
      in norm_date y 0 (n - day_from_year y + 1))"

definition YearFromTime :: "int \<Rightarrow> int" where
  "YearFromTime t = fst (civil_of_day (Day t))"

definition MonthFromTime :: "int \<Rightarrow> int" where
  "MonthFromTime t = fst (snd (civil_of_day (Day t)))"

definition DateFromTime :: "int \<Rightarrow> int" where
  "DateFromTime t = snd (snd (civil_of_day (Day t)))"

text \<open>
  The accessors of a valid date with time value \<open>t\<close>. On an Invalid Date each of them
  gives \<^verbatim>\<open>NaN\<close>: an accessor of a date that may be invalid is written
  \<open>map_option (getDate z) d\<close>.
\<close>

definition getFullYear :: "time_zone \<Rightarrow> int \<Rightarrow> int" where
  "getFullYear z t = YearFromTime (LocalTime z t)"

definition getMonth :: "time_zone \<Rightarrow> int \<Rightarrow> int" where
  "getMonth z t = MonthFromTime (LocalTime z t)"

definition getDate :: "time_zone \<Rightarrow> int \<Rightarrow> int" where
  "getDate z t = DateFromTime (LocalTime z t)"

definition getDay :: "time_zone \<Rightarrow> int \<Rightarrow> int" where
  "getDay z t = WeekDay (LocalTime z t)"

text \<open>
  Numbers are IEEE doubles. The values met here are integers, on which sums and products
  are exact up to \<open>2^53\<close> and rounded to the nearest double beyond (ties to the even
  significand); \<open>round_double\<close> is that rounding, \<open>None\<close> when the result is an
  infinity. The numbers a start time is split into may be any double: \<open>Fin q\<close> is the
  finite double of value \<open>q\<close>.
\<close>

datatype js_num = NaN | PosInf | NegInf | Fin rat

function bit_length :: "int \<Rightarrow> nat" where
  "bit_length n = (if n \<le> 0 then 0 else Suc (bit_length (n div 2)))"
  by pat_completeness auto
termination
  by (relation "measure nat") auto

declare bit_length.simps [simp del]

definition round_double :: "int \<Rightarrow> int option" where
  "round_double x =
     (let a = \<bar>x\<bar>
      in if a < 2 ^ 53 then Some x
         else (let q = 2 ^ (bit_length a - 53);
                   k = a div q;
                   r = a mod q;
                   k' = (if q < 2 * r \<or> (2 * r = q \<and> odd k) then k + 1 else k)
               in if 2 ^ 1024 \<le> k' * q then None else Some (sgn x * (k' * q))))"

text \<open>
  \<^verbatim>\<open>MakeTime\<close> of hours and minutes (seconds and milliseconds 0), \<^verbatim>\<open>MakeDate\<close>,
  \<^verbatim>\<open>UTC\<close> and \<^verbatim>\<open>TimeClip\<close> of ECMAScript. A result that is not a finite number
  is \<open>None\<close>: each consumer turns it into \<^verbatim>\<open>NaN\<close>.
\<close>

definition truncate_num :: "js_num \<Rightarrow> int option" where
  "truncate_num v =
     (case v of Fin q \<Rightarrow> Some (if 0 \<le> q then \<lfloor>q\<rfloor> else \<lceil>q\<rceil>) | _ \<Rightarrow> None)"

definition MakeTime :: "js_num \<Rightarrow> js_num \<Rightarrow> int option" where
  "MakeTime hour minute =
     (case truncate_num hour of
        None \<Rightarrow> None
      | Some h \<Rightarrow>
          (case truncate_num minute of
             None \<Rightarrow> None
           | Some m \<Rightarrow>
               (case round_double (h * 3600000) of
                  None \<Rightarrow> None
                | Some a \<Rightarrow>
                    (case round_double (m * 60000) of
                       None \<Rightarrow> None
                     | Some b \<Rightarrow> round_double (a + b)))))"

definition MakeDate :: "int \<Rightarrow> int \<Rightarrow> int option" where
  "MakeDate day time =
     (case round_double (day * msPerDay) of
        None \<Rightarrow> None
      | Some a \<Rightarrow> round_double (a + time))"

definition UTC :: "time_zone \<Rightarrow> int \<Rightarrow> int option" where
  "UTC z t = round_double (t - offset_at_local z t)"

definition max_time :: int where
  "max_time = 8640000000000000"

definition TimeClip :: "int \<Rightarrow> js_date" where
  "TimeClip t = (if max_time < \<bar>t\<bar> then None else Some t)"

text \<open>
  \<^verbatim>\<open>new Date(year, month, date, hours, minutes)\<close>, in local time. The constructor
  reads a year from 0 to 99 as 1900 + year; an argument that is \<^verbatim>\<open>NaN\<close> or infinite,
  or a time beyond 100,000,000 days either side of 1970, gives an Invalid Date. The year
  and month passed by the program are accessor values of dates, at most one month off.
\<close>

definition legacy_year :: "int \<Rightarrow> int" where
  "legacy_year year = (if 0 \<le> year \<and> year \<le> 99 then 1900 + year else year)"

definition new_Date ::
  "time_zone \<Rightarrow> int option \<Rightarrow> int option \<Rightarrow> int option \<Rightarrow> js_num \<Rightarrow> js_num \<Rightarrow> js_date" where
  "new_Date z year month date hours minutes =
     (case year of
        None \<Rightarrow> None
      | Some y \<Rightarrow>
          (case month of
             None \<Rightarrow> None
           | Some m \<Rightarrow>
               (case date of
                  None \<Rightarrow> None
                | Some dt \<Rightarrow>
                    (case MakeTime hours minutes of
                       None \<Rightarrow> None
                     | Some time \<Rightarrow>
                         (case MakeDate (MakeDay (legacy_year y) m dt) time of
                            None \<Rightarrow> None
                          | Some t \<Rightarrow>
                              (case UTC z t of
                                 None \<Rightarrow> None
                               | Some u \<Rightarrow> TimeClip u))))))"

text \<open>
  Time zones used in the examples: a fixed offset, UTC, Korean time (UTC+9), and New York
  around the start of daylight-saving time on 8 March 2026, when local clocks jump from
  02:00 to 03:00 at 07:00 UTC. A local time is read with the offset before the jump up to
  03:00, as ECMAScript reads the skipped hour.
\<close>

definition fixed_zone :: "int \<Rightarrow> time_zone" where
  "fixed_zone c = \<lparr>offset_at_utc = (\<lambda>t. c), offset_at_local = (\<lambda>t. c)\<rparr>"

definition zone_utc :: time_zone where
  "zone_utc = fixed_zone 0"

definition zone_seoul :: time_zone where
  "zone_seoul = fixed_zone (9 * 3600000)"

definition zone_new_york :: time_zone where
  "zone_new_york =
     \<lparr>offset_at_utc =
        (\<lambda>t. if t < MakeDay 2026 2 8 * msPerDay + 7 * 3600000 then - 5 * 3600000
              else - 4 * 3600000),
      offset_at_local =
        (\<lambda>t. if t < MakeDay 2026 2 8 * msPerDay + 3 * 3600000 then - 5 * 3600000
              else - 4 * 3600000)\<rparr>"

section \<open>Month grid (MonthView.tsx, CalendarWidget.tsx)\<close>

text \<open>
  \<^verbatim>\<open>generateCalendarDays\<close> of the widget, and the same statements run inline by the month
  view: three counting loops that push cells onto \<^verbatim>\<open>calendarDays\<close>. The day number of
  a cell and the year and month passed on are numbers read from dates, so each may be
  \<^verbatim>\<open>NaN\<close>. A loop whose bound is \<^verbatim>\<open>NaN\<close> runs no iteration, its comparison being
  false.
\<close>

record day_cell =
  cell_date :: "int option"
  isCurrentMonth :: bool
  isNextMonth :: bool
  fullDate :: js_date

text \<open>The three object literals pushed by the loops.\<close>

definition leading_cell ::
  "time_zone \<Rightarrow> js_date \<Rightarrow> int option \<Rightarrow> int option \<Rightarrow> int \<Rightarrow> day_cell" where
  "leading_cell z prevMonth year month i =
     \<lparr>cell_date = map_option (\<lambda>p. p - i) (map_option (getDate z) prevMonth),
      isCurrentMonth = False, isNextMonth = False,
      fullDate = new_Date z year (map_option (\<lambda>m. m - 1) month)
                   (map_option (\<lambda>p. p - i) (map_option (getDate z) prevMonth)) (Fin 0) (Fin 0)\<rparr>"

definition current_cell :: "time_zone \<Rightarrow> int option \<Rightarrow> int option \<Rightarrow> int \<Rightarrow> day_cell" where
  "current_cell z year month date =
     \<lparr>cell_date = Some date, isCurrentMonth = True, isNextMonth = False,
      fullDate = new_Date z year month (Some date) (Fin 0) (Fin 0)\<rparr>"

definition trailing_cell :: "time_zone \<Rightarrow> int option \<Rightarrow> int option \<Rightarrow> int \<Rightarrow> day_cell" where
  "trailing_cell z year month date =
     \<lparr>cell_date = Some date, isCurrentMonth = False, isNextMonth = True,
      fullDate = new_Date z year (map_option (\<lambda>m. m + 1) month) (Some date) (Fin 0) (Fin 0)\<rparr>"

function leading_loop ::
  "time_zone \<Rightarrow> int \<Rightarrow> js_date \<Rightarrow> int option \<Rightarrow> int option \<Rightarrow> day_cell list \<Rightarrow> day_cell list" where
  "leading_loop z i prevMonth year month calendarDays =
     (if 0 \<le> i then
        leading_loop z (i - 1) prevMonth year month
          (calendarDays @ [leading_cell z prevMonth year month i])
      else calendarDays)"
  by pat_completeness auto
termination
  by (relation "measure (\<lambda>(z, i, p, y, m, c). nat (i + 1))") auto

function current_loop ::
  "time_zone \<Rightarrow> int \<Rightarrow> int \<Rightarrow> int option \<Rightarrow> int option \<Rightarrow> day_cell list \<Rightarrow> day_cell list" where
  "current_loop z date lastDate year month calendarDays =
     (if date \<le> lastDate then
        current_loop z (date + 1) lastDate year month
          (calendarDays @ [current_cell z year month date])
      else calendarDays)"
  by pat_completeness auto
termination
  by (relation "measure (\<lambda>(z, d, l, y, m, c). nat (l + 1 - d))") auto

function trailing_loop ::
  "time_zone \<Rightarrow> int \<Rightarrow> int \<Rightarrow> int option \<Rightarrow> int option \<Rightarrow> day_cell list \<Rightarrow> day_cell list" where
  "trailing_loop z date remainingDays year month calendarDays =
     (if date \<le> remainingDays then
        trailing_loop z (date + 1) remainingDays year month
          (calendarDays @ [trailing_cell z year month date])
      else calendarDays)"
  by pat_completeness auto
termination
  by (relation "measure (\<lambda>(z, d, r, y, m, c). nat (r + 1 - d))") auto

declare leading_loop.simps [simp del] current_loop.simps [simp del] trailing_loop.simps [simp del]

text \<open>
  The first loop counts down from \<^verbatim>\<open>firstDayOfWeek - 1\<close>, the second up to
  \<^verbatim>\<open>lastDay.getDate()\<close>; either is skipped when that number is \<^verbatim>\<open>NaN\<close>.
\<close>

definition generateCalendarDays :: "time_zone \<Rightarrow> js_date \<Rightarrow> day_cell list" where
  "generateCalendarDays z currentDate =
     (let year = map_option (getFullYear z) currentDate;
          month = map_option (getMonth z) currentDate;
          firstDay = new_Date z year month (Some 1) (Fin 0) (Fin 0);
          lastDay = new_Date z year (map_option (\<lambda>m. m + 1) month) (Some 0) (Fin 0) (Fin 0);
          firstDayOfWeek = map_option (\<lambda>w. (w + 6) mod 7) (map_option (getDay z) firstDay);
          prevMonth = new_Date z year month (Some 0) (Fin 0) (Fin 0);
          leading = (case firstDayOfWeek of
                       None \<Rightarrow> []
                     | Some f \<Rightarrow> leading_loop z (f - 1) prevMonth year month []);
          current = (case map_option (getDate z) lastDay of
                       None \<Rightarrow> leading
                     | Some l \<Rightarrow> current_loop z 1 l year month leading);
          remainingDays = 42 - int (length current)
      in trailing_loop z 1 remainingDays year month current)"

text \<open>
  The neighbouring months of month \<open>m\<close> of year \<open>y\<close>, the instant of local midnight
  of day number \<open>n\<close>, the number of cells before the first of the month of a date with
  time value \<open>t\<close> (the Monday-based weekday index of that first day) and the number of
  days of that month in the Gregorian calendar, for stating what the grid holds. The days
  \<open>a\<close> to \<open>b\<close> are representable when their local midnights are inside the range of
  time values and fall on those days in local time, as they do in a zone that skips no
  whole day.
\<close>

definition prev_month :: "int \<Rightarrow> int \<Rightarrow> int \<times> int" where
  "prev_month y m = (if m = 0 then (y - 1, 11) else (y, m - 1))"

definition next_month :: "int \<Rightarrow> int \<Rightarrow> int \<times> int" where
  "next_month y m = (if m = 11 then (y + 1, 0) else (y, m + 1))"

definition midnight :: "time_zone \<Rightarrow> int \<Rightarrow> int" where
  "midnight z n = n * msPerDay - offset_at_local z (n * msPerDay)"

definition days_representable :: "time_zone \<Rightarrow> int \<Rightarrow> int \<Rightarrow> bool" where
  "days_representable z a b =
     (\<forall>n\<in>{a..b}. \<bar>n * msPerDay\<bar> < 2 ^ 53 \<and> \<bar>midnight z n\<bar> \<le> max_time
                   \<and> Day (LocalTime z (midnight z n)) = n)"

definition grid_lead :: "time_zone \<Rightarrow> int \<Rightarrow> nat" where
  "grid_lead z t = nat ((MakeDay (getFullYear z t) (getMonth z t) 1 + 4 + 6) mod 7)"

definition month_length :: "time_zone \<Rightarrow> int \<Rightarrow> nat" where
  "month_length z t = nat (days_in_month (getFullYear z t) (getMonth z t))"

section \<open>Upcoming notice (hooks/useUpcomingNotice.ts)\<close>

text \<open>
  \<^verbatim>\<open>ev.startTime.split(':').map(Number)\<close>, then \<^verbatim>\<open>h || 0\<close> and \<^verbatim>\<open>m || 0\<close>.
  \<open>Number\<close> is computed on strings of at most 15 decimal digits (the empty string gives
  0), whose value is a double; the conversion of every other string (signs, fractions,
  exponents, radix prefixes, padding, longer digit strings) is the parameter \<open>conv\<close>.
  A part that is missing is \<^verbatim>\<open>undefined\<close>, which \<^verbatim>\<open>|| 0\<close> replaces like
  \<^verbatim>\<open>NaN\<close>. The title of a notice is the name of the event's template, which the event
  type always carries.
\<close>

record upcoming_notice =
  eventId :: string
  title :: string
  minutesLeft :: "int option"

fun split_on :: "char \<Rightarrow> string \<Rightarrow> string list" where
  "split_on sep [] = [[]]"
| "split_on sep (c # cs) =
     (if c = sep then [] # split_on sep cs
      else (case split_on sep cs of p # ps \<Rightarrow> (c # p) # ps | [] \<Rightarrow> [[c]]))"

definition is_digit :: "char \<Rightarrow> bool" where
  "is_digit c = ((48::nat) \<le> of_char c \<and> (of_char c :: nat) \<le> 57)"

definition Number :: "(string \<Rightarrow> js_num) \<Rightarrow> string \<Rightarrow> js_num" where
  "Number conv s =
     (if list_all is_digit s \<and> length s \<le> 15
      then Fin (of_int (foldl (\<lambda>acc c. 10 * acc + (of_char c - 48)) 0 s))
      else conv s)"

definition or_zero :: "js_num \<Rightarrow> js_num" where
  "or_zero v = (if v = NaN \<or> v = Fin 0 then Fin 0 else v)"

definition start_parts :: "(string \<Rightarrow> js_num) \<Rightarrow> string \<Rightarrow> js_num \<times> js_num" where
  "start_parts conv startTime =
     (let parts = map (Number conv) (split_on CHR '':'' startTime);
          h = (case parts of [] \<Rightarrow> NaN | a # _ \<Rightarrow> a);
          m = (case parts of a # b # _ \<Rightarrow> b | _ \<Rightarrow> NaN)
      in (or_zero h, or_zero m))"

definition nowDay_of :: "time_zone \<Rightarrow> int \<Rightarrow> int" where
  "nowDay_of z now = (getDay z now + 6) mod 7"

text \<open>
  The loop over the events. \<open>now\<close> is the time value of \<^verbatim>\<open>new Date()\<close>, which is
  never invalid. \<^verbatim>\<open>diffMin\<close> is \<^verbatim>\<open>NaN\<close> when \<^verbatim>\<open>start\<close> is an Invalid Date; then
  both comparisons of the guard are false and the loop goes on to \<^verbatim>\<open>Math.ceil\<close>,
  which gives \<^verbatim>\<open>NaN\<close>, and \<^verbatim>\<open>minutesLeft < best.minutesLeft\<close> is false when either
  side is \<^verbatim>\<open>NaN\<close>. Otherwise \<^verbatim>\<open>diffMin\<close> is an exact rational here: the millisecond
  difference is an integer below \<open>2^54\<close>, so the comparisons with 0 and 60 give the same
  results on the double, and so does \<^verbatim>\<open>Math.ceil\<close> on a quotient between 0 and 60.
\<close>

definition less_num :: "int option \<Rightarrow> int option \<Rightarrow> bool" where
  "less_num a b = (case a of None \<Rightarrow> False | Some x \<Rightarrow> (case b of None \<Rightarrow> False | Some y \<Rightarrow> x < y))"

fun notice_loop ::
  "time_zone \<Rightarrow> (string \<Rightarrow> js_num) \<Rightarrow> calendar_event list \<Rightarrow> int \<Rightarrow>
   upcoming_notice option \<Rightarrow> upcoming_notice option" where
  "notice_loop z conv [] now best = best"
| "notice_loop z conv (ev # evs) now best =
     (if e_day ev \<noteq> nowDay_of z now then notice_loop z conv evs now best
      else if e_startTime ev = [] then notice_loop z conv evs now best
      else
        (let (h, m) = start_parts conv (e_startTime ev);
             start = new_Date z (Some (getFullYear z now)) (Some (getMonth z now))
                       (Some (getDate z now)) h m;
             diffMin = map_option (\<lambda>s. (of_int (s - now) :: rat) / 60000) start
         in if (case diffMin of None \<Rightarrow> False | Some q \<Rightarrow> q \<le> 0 \<or> q > 60)
            then notice_loop z conv evs now best
            else
              (let minutesLeft = map_option ceiling diffMin;
                   title = t_name (e_template ev)
               in if (case best of
                        None \<Rightarrow> True
                      | Some b \<Rightarrow> less_num minutesLeft (upcoming_notice.minutesLeft b))
                  then notice_loop z conv evs now
                         (Some \<lparr>eventId = e_id ev, title = title, minutesLeft = minutesLeft\<rparr>)
                  else notice_loop z conv evs now best)))"

definition useUpcomingNotice ::
  "time_zone \<Rightarrow> (string \<Rightarrow> js_num) \<Rightarrow> calendar_event list option \<Rightarrow> int \<Rightarrow>
   upcoming_notice option" where
  "useUpcomingNotice z conv evs_opt now =
     (case evs_opt of
        None \<Rightarrow> None
      | Some [] \<Rightarrow> None
      | Some evs \<Rightarrow> notice_loop z conv evs now None)"

text \<open>
  The notions the statements about the hook use, written from the data model and not
  from the code's parse. A start time has the form \<^verbatim>\<open>HH:MM\<close> when it is two digits, a
  colon and two digits; its hours and minutes are the values of those digit pairs. The
  start instant of an event is the instant at which the local clock of today's date shows
  that time; an event is upcoming when it is on today's weekday index and starts after now
  and at most 60 minutes from now.
\<close>

definition digit_value :: "char \<Rightarrow> int" where
  "digit_value c = of_char c - 48"


definition hours_of :: "string \<Rightarrow> int" where
  "hours_of s = 10 * digit_value (s ! 0) + digit_value (s ! 1)"

definition minutes_of :: "string \<Rightarrow> int" where
  "minutes_of s = 10 * digit_value (s ! 3) + digit_value (s ! 4)"

definition today :: "time_zone \<Rightarrow> int \<Rightarrow> int" where
  "today z now = Day (LocalTime z now)"

definition local_start :: "time_zone \<Rightarrow> int \<Rightarrow> calendar_event \<Rightarrow> int" where
  "local_start z now ev =
     today z now * msPerDay + hours_of (e_startTime ev) * 3600000
       + minutes_of (e_startTime ev) * 60000"

definition start_instant :: "time_zone \<Rightarrow> int \<Rightarrow> calendar_event \<Rightarrow> int" where
  "start_instant z now ev = local_start z now ev - offset_at_local z (local_start z now ev)"

definition upcoming :: "time_zone \<Rightarrow> int \<Rightarrow> calendar_event \<Rightarrow> bool" where
  "upcoming z now ev =
     (e_day ev = nowDay_of z now
      \<and> 0 < start_instant z now ev - now
      \<and> start_instant z now ev - now \<le> 60 * 60000)"






section \<open>Attachments of the template form (TemplateForm.tsx)\<close>

definition MAX_TOTAL_ATTACHMENT_SIZE :: nat where
  "MAX_TOTAL_ATTACHMENT_SIZE = 20 * 1024 * 1024"

text \<open>
  \<^verbatim>\<open>readFile\<close> resolves to the attachment of a file; \<open>readAsDataURL\<close> stands for the
  data URL the browser's \<^verbatim>\<open>FileReader\<close> produces for it.
\<close>

definition readFile :: "(file_handle \<Rightarrow> string) \<Rightarrow> file_handle \<Rightarrow> attachment" where
  "readFile readAsDataURL f =
     \<lparr>fileData = Some (readAsDataURL f), fileName = f_name f, fileType = f_type f,
      fileObj = Some f\<rparr>"

text \<open>\<^verbatim>\<open>att.file?.size || 0\<close>\<close>

definition counted_size :: "attachment \<Rightarrow> nat" where
  "counted_size att = (case fileObj att of None \<Rightarrow> 0 | Some f \<Rightarrow> f_size f)"

text \<open>
  The \<^verbatim>\<open>for (const file of files)\<close> loop of \<^verbatim>\<open>handleFileChange\<close>; the result is
  \<^verbatim>\<open>newAtts\<close> and whether \<^verbatim>\<open>alert\<close> was called (the loop breaks there).
\<close>

fun file_loop ::
  "(file_handle \<Rightarrow> string) \<Rightarrow> file_handle list \<Rightarrow> nat \<Rightarrow> attachment list
     \<Rightarrow> attachment list \<times> bool" where
  "file_loop rd [] totalSize newAtts = (newAtts, False)"
| "file_loop rd (f # fs) totalSize newAtts =
     (if totalSize + f_size f > MAX_TOTAL_ATTACHMENT_SIZE then (newAtts, True)
      else file_loop rd fs (totalSize + f_size f) (newAtts @ [readFile rd f]))"

text \<open>
  \<^verbatim>\<open>handleFileChange\<close>: the new attachment state and whether the user was alerted.
  \<open>None\<close> is a null \<^verbatim>\<open>e.target.files\<close>.
\<close>

definition handleFileChange ::
  "(file_handle \<Rightarrow> string) \<Rightarrow> file_handle list option \<Rightarrow> attachment list
     \<Rightarrow> attachment list \<times> bool" where
  "handleFileChange rd fileList attachments =
     (case fileList of
        None \<Rightarrow> (attachments, False)
      | Some files \<Rightarrow>
          (let totalSize = foldl (\<lambda>sum att. sum + counted_size att) 0 attachments;
               (newAtts, alerted) = file_loop rd files totalSize []
           in (if newAtts \<noteq> [] then attachments @ newAtts else attachments, alerted)))"

text \<open>
  What \<^verbatim>\<open>handleSubmit\<close> stores and what the form loads back when a template is edited:
  the three data fields, without the \<^verbatim>\<open>File\<close>.
\<close>

definition serializable :: "attachment \<Rightarrow> attachment" where
  "serializable att =
     \<lparr>fileData = fileData att, fileName = fileName att, fileType = fileType att,
      fileObj = None\<rparr>"

definition serializableAttachments :: "attachment list \<Rightarrow> attachment list" where
  "serializableAttachments attachments = map serializable attachments"

definition populate_attachments :: "template option \<Rightarrow> attachment list" where
  "populate_attachments editingTemplate =
     (case editingTemplate of
        None \<Rightarrow> []
      | Some t \<Rightarrow>
          (case t_attachments t of
             None \<Rightarrow> []
           | Some atts \<Rightarrow> if atts \<noteq> [] then map serializable atts else []))"

section \<open>Loading the store from localStorage\<close>

text \<open>
  \<^verbatim>\<open>localStorage\<close> is a map from keys to strings; \<^verbatim>\<open>setItem\<close> may throw (quota
  exceeded, storage disabled), which \<open>accepts\<close> decides and \<open>None\<close> reports.
  \<^verbatim>\<open>JSON.parse\<close> and \<^verbatim>\<open>JSON.stringify\<close> are the platform's and enter as parameters:
  parsing gives \<open>None\<close> for a \<^verbatim>\<open>SyntaxError\<close>, an array of calendars, or some other
  JSON value.
\<close>

definition CALENDARS_KEY :: string where
  "CALENDARS_KEY = ''calendar-calendars''"

definition SELECTED_CALENDAR_KEY :: string where
  "SELECTED_CALENDAR_KEY = ''calendar-selected-calendar''"

definition VIEW_MODE_KEY :: string where
  "VIEW_MODE_KEY = ''calendar-view-mode''"

record local_storage =
  items :: "string \<Rightarrow> string option"
  accepts :: "string \<Rightarrow> string \<Rightarrow> bool"

definition getItem :: "local_storage \<Rightarrow> string \<Rightarrow> string option" where
  "getItem st k = items st k"

definition setItem :: "local_storage \<Rightarrow> string \<Rightarrow> string \<Rightarrow> local_storage option" where
  "setItem st k v = (if accepts st k v then Some (st\<lparr>items := (items st)(k \<mapsto> v)\<rparr>) else None)"

datatype json_value = JArray "calendar_data list" | JOther

record json_api =
  JSON_parse :: "string \<Rightarrow> json_value option"
  JSON_stringify :: "calendar_data list \<Rightarrow> string"

text \<open>The default calendar's name, the UTF-8 bytes of the source's literal.\<close>

definition default_calendar_name :: string where
  "default_calendar_name =
     map char_of [0xEC, 0x8B, 0x9C, 0xEA, 0xB0, 0x84, 0xED, 0x91, 0x9C, 0x31 :: nat]"

definition default_calendar :: "nat \<Rightarrow> calendar_data" where
  "default_calendar now =
     \<lparr>c_id = toString now, c_name = default_calendar_name, templates = [], events = []\<rparr>"

text \<open>
  The saved calendars that the initialiser returns early: the value must be present and
  non-empty (\<^verbatim>\<open>if (saved)\<close>), parse, and be a non-empty array.
\<close>

definition saved_calendars :: "json_api \<Rightarrow> local_storage \<Rightarrow> calendar_data list option" where
  "saved_calendars J st =
     (case getItem st CALENDARS_KEY of
        None \<Rightarrow> None
      | Some saved \<Rightarrow>
          if saved = [] then None
          else (case JSON_parse J saved of
                  None \<Rightarrow> None
                | Some JOther \<Rightarrow> None
                | Some (JArray parsed) \<Rightarrow> if parsed \<noteq> [] then Some parsed else None))"

text \<open>
  The two writes of the default calendar share one \<^verbatim>\<open>try\<close> block: when the first
  throws the second is skipped, and the error is dropped either way.
\<close>

definition persist_default :: "json_api \<Rightarrow> calendar_data \<Rightarrow> local_storage \<Rightarrow> local_storage" where
  "persist_default J defaultCalendar st =
     (case setItem st CALENDARS_KEY (JSON_stringify J [defaultCalendar]) of
        None \<Rightarrow> st
      | Some st1 \<Rightarrow>
          (case setItem st1 SELECTED_CALENDAR_KEY (c_id defaultCalendar) of
             None \<Rightarrow> st1
           | Some st2 \<Rightarrow> st2))"

text \<open>
  The initialiser of the \<^verbatim>\<open>calendars\<close> state: the calendars and the storage it leaves.
  \<open>window_defined\<close> is \<^verbatim>\<open>typeof window !== 'undefined'\<close>.
\<close>

definition init_calendars ::
  "json_api \<Rightarrow> bool \<Rightarrow> nat \<Rightarrow> local_storage \<Rightarrow> calendar_data list \<times> local_storage" where
  "init_calendars J window_defined now st =
     (if \<not> window_defined then ([], st)
      else (case saved_calendars J st of
              Some parsed \<Rightarrow> (parsed, st)
            | None \<Rightarrow> ([default_calendar now], persist_default J (default_calendar now) st)))"

definition init_selectedCalendarId :: "bool \<Rightarrow> local_storage \<Rightarrow> string option" where
  "init_selectedCalendarId window_defined st =
     (if \<not> window_defined then None
      else (case getItem st SELECTED_CALENDAR_KEY of
              None \<Rightarrow> None
            | Some saved \<Rightarrow> if saved = [] then None else Some saved))"

definition init_viewMode :: "bool \<Rightarrow> local_storage \<Rightarrow> view_mode" where
  "init_viewMode window_defined st =
     (if \<not> window_defined then Week
      else (case getItem st VIEW_MODE_KEY of
              None \<Rightarrow> Week
            | Some saved \<Rightarrow> if saved = ''month'' then Month else Week))"

definition init_store ::
  "json_api \<Rightarrow> bool \<Rightarrow> nat \<Rightarrow> local_storage \<Rightarrow> store \<times> local_storage" where
  "init_store J window_defined now st =
     (let (cals, st1) = init_calendars J window_defined now st
      in (\<lparr>calendars = cals,
           selectedCalendarId = init_selectedCalendarId window_defined st1,
           viewMode = init_viewMode window_defined st1,
           selectedTemplate = None\<rparr>, st1))"

section \<open>Object identity in addEvent\<close>

text \<open>
  Whether a stored event can be changed through the template object it was created from
  depends on which objects are shared, which the value model above cannot say. Here
  template objects and their arrays live in a heap of addresses; a template object holds
  its scalar fields and references to its \<^verbatim>\<open>urls\<close>, \<^verbatim>\<open>apps\<close> and
  \<^verbatim>\<open>attachments\<close> arrays, and an event holds a reference to its template object.
  \<open>next_addr\<close> is the address the next allocation returns.
\<close>

type_synonym addr = nat

record template_obj =
  o_id :: string
  o_name :: string
  o_description :: string
  o_color :: string
  o_duration :: int
  o_urls :: "addr option"
  o_apps :: "addr option"
  o_attachments :: "addr option"

record heap =
  template_objs :: "addr \<Rightarrow> template_obj option"
  url_arrays :: "addr \<Rightarrow> string list option"
  app_arrays :: "addr \<Rightarrow> app_link list option"
  attachment_arrays :: "addr \<Rightarrow> attachment list option"
  next_addr :: addr

text \<open>The value a template reference denotes: its fields, with the arrays read through.\<close>

definition read_template :: "heap \<Rightarrow> addr \<Rightarrow> template option" where
  "read_template h a =
     (case template_objs h a of
        None \<Rightarrow> None
      | Some ob \<Rightarrow>
          Some \<lparr>t_id = o_id ob, t_name = o_name ob, t_description = o_description ob,
                t_color = o_color ob, t_duration = o_duration ob,
                t_urls = (case o_urls ob of None \<Rightarrow> None | Some u \<Rightarrow> url_arrays h u),
                t_apps = (case o_apps ob of None \<Rightarrow> None | Some u \<Rightarrow> app_arrays h u),
                t_attachments =
                  (case o_attachments ob of None \<Rightarrow> None | Some u \<Rightarrow> attachment_arrays h u)\<rparr>)"

text \<open>Events, calendars and the store with references in place of template values.\<close>

record event_obj =
  eo_id :: string
  eo_templateId :: string
  eo_template :: addr
  eo_startTime :: string
  eo_endTime :: string
  eo_day :: int

record event_data_ref =
  edr_templateId :: string
  edr_template :: addr
  edr_startTime :: string
  edr_endTime :: string
  edr_day :: int

record calendar_refs =
  cr_id :: string
  cr_name :: string
  cr_templates :: "addr list"
  cr_events :: "event_obj list"

record store_refs =
  sr_calendars :: "calendar_refs list"
  sr_selectedCalendarId :: "string option"

definition selectedCalendar_refs :: "store_refs \<Rightarrow> calendar_refs option" where
  "selectedCalendar_refs s =
     (case (case sr_selectedCalendarId s of
              None \<Rightarrow> None
            | Some i \<Rightarrow> find (\<lambda>c. cr_id c = i) (sr_calendars s)) of
        Some c \<Rightarrow> Some c
      | None \<Rightarrow> (case sr_calendars s of [] \<Rightarrow> None | c # _ \<Rightarrow> Some c))"

text \<open>
  \<^verbatim>\<open>{ ...eventData.template }\<close>: a new object with the enumerable own properties of
  the original, so scalar fields by value and array fields by reference.
\<close>

definition spread_template :: "heap \<Rightarrow> addr \<Rightarrow> (addr \<times> heap) option" where
  "spread_template h a =
     (case template_objs h a of
        None \<Rightarrow> None
      | Some ob \<Rightarrow>
          Some (next_addr h,
                h\<lparr>template_objs := (template_objs h)(next_addr h \<mapsto> ob),
                  next_addr := Suc (next_addr h)\<rparr>))"

text \<open>
  \<^verbatim>\<open>addEvent\<close> on references: the guard, the new event with the spread copy of the
  template, and the append to the calendars with the selected id.
\<close>

definition addEvent_refs :: "nat \<Rightarrow> event_data_ref \<Rightarrow> store_refs \<Rightarrow> heap \<Rightarrow> store_refs \<times> heap" where
  "addEvent_refs now d s h =
     (case selectedCalendar_refs s of
        None \<Rightarrow> (s, h)
      | Some sel \<Rightarrow>
          (case (spread_template h (edr_template d), template_objs h (edr_template d)) of
             (Some (copy, h'), Some ob) \<Rightarrow>
               (let newEvent =
                      \<lparr>eo_id = toString now, eo_templateId = o_id ob, eo_template = copy,
                       eo_startTime = edr_startTime d, eo_endTime = edr_endTime d,
                       eo_day = edr_day d\<rparr>
                in (s\<lparr>sr_calendars :=
                        map (\<lambda>c. if cr_id c = cr_id sel
                                  then c\<lparr>cr_events := cr_events c @ [newEvent]\<rparr> else c)
                          (sr_calendars s)\<rparr>, h'))
           | _ \<Rightarrow> (s, h)))"

text \<open>
  Later mutations of the original template: assigning to its own fields (any new field
  values, \<open>assign_fields\<close>), and mutating a nested array in place
  (\<^verbatim>\<open>template.urls.push(url)\<close>, \<open>push_url\<close>).
\<close>

definition assign_fields :: "heap \<Rightarrow> addr \<Rightarrow> template_obj \<Rightarrow> heap" where
  "assign_fields h a ob = h\<lparr>template_objs := (template_objs h)(a \<mapsto> ob)\<rparr>"

definition push_url :: "heap \<Rightarrow> addr \<Rightarrow> string \<Rightarrow> heap" where
  "push_url h a url =
     (case template_objs h a of
        None \<Rightarrow> h
      | Some ob \<Rightarrow>
          (case o_urls ob of
             None \<Rightarrow> h
           | Some u \<Rightarrow>
               (case url_arrays h u of
                  None \<Rightarrow> h
                | Some urls \<Rightarrow> h\<lparr>url_arrays := (url_arrays h)(u \<mapsto> urls @ [url])\<rparr>)))"

definition obj_math :: template_obj where
  "obj_math =
     \<lparr>o_id = ''t1'', o_name = ''Math'', o_description = ''algebra'', o_color = ''#3B82F6'',
      o_duration = 60, o_urls = Some 1, o_apps = None, o_attachments = None\<rparr>"

definition heap_math :: heap where
  "heap_math =
     \<lparr>template_objs = (\<lambda>a. if a = 0 then Some obj_math else None),
      url_arrays = (\<lambda>a. if a = 1 then Some [''https://example.org''] else None),
      app_arrays = (\<lambda>a. None), attachment_arrays = (\<lambda>a. None), next_addr = 2\<rparr>"

definition store_refs_one :: store_refs where
  "store_refs_one =
     \<lparr>sr_calendars = [\<lparr>cr_id = ''a'', cr_name = ''A'', cr_templates = [0], cr_events = []\<rparr>],
      sr_selectedCalendarId = Some ''a''\<rparr>"

definition edata_ref_math :: event_data_ref where
  "edata_ref_math =
     \<lparr>edr_templateId = ''t1'', edr_template = 0, edr_startTime = ''09:00'',
      edr_endTime = ''10:00'', edr_day = 0\<rparr>"

section \<open>Day-of-week index and frame of the mutations\<close>

text \<open>
  The header's variant of the index, \<^verbatim>\<open>dayOfWeek === 0 ? 6 : dayOfWeek - 1\<close>, and the
  month view's \<^verbatim>\<open>getEventsForDay\<close>, in which no event's day equals the
  \<^verbatim>\<open>NaN\<close> index of a cell with an Invalid Date.
\<close>

definition adjustedDay :: "int \<Rightarrow> int" where
  "adjustedDay dayOfWeek = (if dayOfWeek = 0 then 6 else dayOfWeek - 1)"

definition getEventsForDay ::
  "time_zone \<Rightarrow> calendar_event list \<Rightarrow> day_cell \<Rightarrow> calendar_event list" where
  "getEventsForDay z evs dayData =
     (if \<not> isCurrentMonth dayData then []
      else (let dayOfWeek = map_option (\<lambda>w. (w + 6) mod 7)
                              (map_option (getDay z) (fullDate dayData))
            in filter (\<lambda>event. Some (e_day event) = dayOfWeek) evs))"

text \<open>
  What a mutation of templates or events may change: calendars keep their ids, number and
  order; a calendar whose id is not the selected calendar's is the same before and after;
  the selection and the view mode stay; and with no selected calendar nothing changes.
\<close>

definition only_selected_changed :: "store \<Rightarrow> store \<Rightarrow> bool" where
  "only_selected_changed s s' =
     (map c_id (calendars s') = map c_id (calendars s)
      \<and> list_all2 (\<lambda>c c'. (case selectedCalendar s of
                               None \<Rightarrow> True
                             | Some sel \<Rightarrow> c_id c \<noteq> c_id sel) \<longrightarrow> c' = c)
            (calendars s) (calendars s')
      \<and> selectedCalendarId s' = selectedCalendarId s
      \<and> selectedTemplate s' = selectedTemplate s
      \<and> viewMode s' = viewMode s
      \<and> (selectedCalendar s = None \<longrightarrow> s' = s))"

text \<open>
  Concrete data used to instantiate the theorems. \<open>zone_jump_90s\<close> is a time zone
  whose clocks jump forward by 90 seconds at 09:29:30 UTC on 3 November 2026.
\<close>

definition november_2026 :: int where
  "november_2026 = MakeDay 2026 10 3 * msPerDay"

definition february_year_0 :: int where
  "february_year_0 = MakeDay 0 1 15 * msPerDay"

definition september_275760 :: int where
  "september_275760 = MakeDay 275760 8 13 * msPerDay"

definition tmpl_math :: template where
  "tmpl_math =
     \<lparr>t_id = ''t1'', t_name = ''Math'', t_description = ''algebra'', t_color = ''#3B82F6'',
      t_duration = 60, t_urls = Some [''https://example.org''], t_apps = None,
      t_attachments = None\<rparr>"

definition tmpl_art :: template where
  "tmpl_art = tmpl_math\<lparr>t_id := ''t2'', t_name := ''Art''\<rparr>"

definition event_at :: "string \<Rightarrow> string \<Rightarrow> int \<Rightarrow> calendar_event" where
  "event_at i startTime day =
     \<lparr>e_id = i, e_templateId = ''t1'', e_template = tmpl_math, e_startTime = startTime,
      e_endTime = ''23:00'', e_day = day\<rparr>"

definition json_brackets :: json_api where
  "json_brackets =
     \<lparr>JSON_parse = (\<lambda>s. if s = ''[]'' then Some (JArray []) else None),
      JSON_stringify = (\<lambda>cs. if cs = [] then ''[]'' else ''[...]'')\<rparr>"

definition storage_brackets :: local_storage where
  "storage_brackets =
     \<lparr>items = (\<lambda>k. if k = CALENDARS_KEY then Some ''[]'' else None),
      accepts = (\<lambda>k v. True)\<rparr>"

definition storage_blank :: local_storage where
  "storage_blank = \<lparr>items = (\<lambda>k. None), accepts = (\<lambda>k v. True)\<rparr>"

definition storage_saved :: local_storage where
  "storage_saved =
     \<lparr>items = (\<lambda>k. if k = CALENDARS_KEY then Some ''[A,B,C]'' else None),
      accepts = (\<lambda>k v. True)\<rparr>"

definition storage_corrupt :: local_storage where
  "storage_corrupt =
     \<lparr>items = (\<lambda>k. if k = CALENDARS_KEY then Some ''{bad'' else None),
      accepts = (\<lambda>k v. True)\<rparr>"

definition storage_full :: local_storage where
  "storage_full = \<lparr>items = (\<lambda>k. None), accepts = (\<lambda>k v. False)\<rparr>"

definition file_a :: file_handle where
  "file_a = \<lparr>f_name = ''a.pdf'', f_type = ''application/pdf'', f_size = 15 * 1024 * 1024\<rparr>"

definition file_b :: file_handle where
  "file_b = \<lparr>f_name = ''b.pdf'', f_type = ''application/pdf'', f_size = 15 * 1024 * 1024\<rparr>"




definition new_york_0130 :: int where
  "new_york_0130 = MakeDay 2026 2 8 * msPerDay + 6 * 3600000 + 30 * 60000"


definition no_conv :: "string \<Rightarrow> js_num" where
  "no_conv s = NaN"


definition cal_a :: calendar_data where
  "cal_a = \<lparr>c_id = ''a'', c_name = ''A'', templates = [tmpl_math, tmpl_art],
            events = [event_at ''e1'' ''09:30'' 2]\<rparr>"

definition cal_b :: calendar_data where
  "cal_b = \<lparr>c_id = ''b'', c_name = ''B'', templates = [tmpl_art], events = []\<rparr>"

definition cal_c :: calendar_data where
  "cal_c = \<lparr>c_id = ''c'', c_name = ''C'', templates = [], events = []\<rparr>"

definition store_abc :: store where
  "store_abc =
     \<lparr>calendars = [cal_a, cal_b, cal_c], selectedCalendarId = Some ''b'', viewMode = Week,
      selectedTemplate = Some tmpl_math\<rparr>"

definition store_empty :: store where
  "store_empty =
     \<lparr>calendars = [], selectedCalendarId = None, viewMode = Week, selectedTemplate = None\<rparr>"

definition json_sample :: json_api where
  "json_sample =
     \<lparr>JSON_parse = (\<lambda>s. if s = ''[A,B,C]'' then Some (JArray [cal_a, cal_b, cal_c])
                         else if s = ''[D]'' then Some (JArray [default_calendar 1700000000000])
                         else if s = ''{}'' then Some JOther
                         else None),
      JSON_stringify = (\<lambda>cs. if cs = [cal_a, cal_b, cal_c] then ''[A,B,C]''
                             else if cs = [default_calendar 1700000000000] then ''[D]''
                             else ''?'')\<rparr>"

definition tdata_math :: template_data where
  "tdata_math =
     \<lparr>td_name = ''Math 2'', td_description = ''geometry'', td_color = ''#EF4444'',
      td_duration = 120, td_urls = Given (Some []), td_apps = Given None,
      td_attachments = Absent\<rparr>"

definition edata_math :: event_data where
  "edata_math =
     \<lparr>ed_templateId = ''t1'', ed_template = tmpl_math, ed_startTime = ''09:00'',
      ed_endTime = ''10:00'', ed_day = 0\<rparr>"

definition updates_move :: event_updates where
  "updates_move =
     \<lparr>u_id = None, u_templateId = None, u_template = None, u_startTime = Some ''11:00'',
      u_endTime = Some ''12:00'', u_day = Some 3\<rparr>"

section \<open>Facts about the store\<close>

lemma selectedTemplate_selectTemplate:
  "selectedTemplate (selectTemplate tmpl s) = selectTemplate_upd (selectedTemplate s) tmpl"
  by (simp add: selectTemplate_def)

lemma selectTemplate_upd_Some:
  "selectTemplate_upd (Some p) tmpl = (if t_id p = t_id tmpl then None else Some tmpl)"
  by (simp add: selectTemplate_upd_def)

lemma selectTemplate_upd_None: "selectTemplate_upd None tmpl = Some tmpl"
  by (simp add: selectTemplate_upd_def)

text \<open>
  C8. Selecting the template whose id is the selected template's id clears the selection;
  selecting a template when another one, or none, is selected selects it; and selecting
  the same template twice, from a state in which it is not the selected one, ends
  unselected. Nothing else in the store changes.
\<close>

theorem selectTemplate_toggle:
  "(\<forall>p. selectedTemplate s = Some p \<and> t_id p = t_id tmpl \<longrightarrow>
        selectedTemplate (selectTemplate tmpl s) = None)
   \<and> ((\<forall>p. selectedTemplate s = Some p \<longrightarrow> t_id p \<noteq> t_id tmpl) \<longrightarrow>
        selectedTemplate (selectTemplate tmpl s) = Some tmpl)
   \<and> ((\<forall>p. selectedTemplate s = Some p \<longrightarrow> t_id p \<noteq> t_id tmpl) \<longrightarrow>
        selectedTemplate (selectTemplate tmpl (selectTemplate tmpl s)) = None)
   \<and> calendars (selectTemplate tmpl s) = calendars s
   \<and> selectedCalendarId (selectTemplate tmpl s) = selectedCalendarId s"
proof -
  have a: "selectedTemplate s = Some p \<and> t_id p = t_id tmpl \<longrightarrow>
        selectedTemplate (selectTemplate tmpl s) = None" for p
    by (simp add: selectedTemplate_selectTemplate selectTemplate_upd_Some)
  have b: "(\<forall>p. selectedTemplate s = Some p \<longrightarrow> t_id p \<noteq> t_id tmpl) \<Longrightarrow>
        selectTemplate_upd (selectedTemplate s) tmpl = Some tmpl"
    by (cases "selectedTemplate s") (simp_all add: selectTemplate_upd_Some selectTemplate_upd_None)
  have c: "calendars (selectTemplate tmpl s) = calendars s"
     "selectedCalendarId (selectTemplate tmpl s) = selectedCalendarId s"
    by (simp_all add: selectTemplate_def)
  show ?thesis
    using a b c by (simp add: selectedTemplate_selectTemplate selectTemplate_upd_Some)
qed

theorem selectTemplate_toggle_witness:
  "selectedTemplate store_abc = Some tmpl_math
   \<and> selectedTemplate (selectTemplate tmpl_math store_abc) = None
   \<and> selectedTemplate (selectTemplate tmpl_art store_abc) = Some tmpl_art
   \<and> selectedTemplate (selectTemplate tmpl_art (selectTemplate tmpl_art store_abc)) = None
   \<and> selectedTemplate store_empty = None
   \<and> selectedTemplate (selectTemplate tmpl_art store_empty) = Some tmpl_art
   \<and> selectedTemplate (selectTemplate tmpl_art (selectTemplate tmpl_art store_empty)) = None"
  using selectTemplate_toggle [of store_abc tmpl_math]
    selectTemplate_toggle [of store_abc tmpl_art]
    selectTemplate_toggle [of store_empty tmpl_art]
  by (simp add: store_abc_def store_empty_def tmpl_art_def tmpl_math_def)

text \<open>
  C5. \<^verbatim>\<open>deleteCalendar\<close> keeps exactly the calendars with another id, in their order.
  When the deleted id is the selected id, the selection becomes the id of the first
  remaining calendar, or null when none remains; otherwise the selection stays.
\<close>

theorem deleteCalendar_selection:
  "calendars (deleteCalendar calendarId s) = filter (\<lambda>c. c_id c \<noteq> calendarId) (calendars s)
   \<and> (selectedCalendarId s = Some calendarId \<longrightarrow>
        selectedCalendarId (deleteCalendar calendarId s) =
          (case filter (\<lambda>c. c_id c \<noteq> calendarId) (calendars s) of
             [] \<Rightarrow> None | c # _ \<Rightarrow> Some (c_id c)))
   \<and> (selectedCalendarId s \<noteq> Some calendarId \<longrightarrow>
        selectedCalendarId (deleteCalendar calendarId s) = selectedCalendarId s)
   \<and> selectedTemplate (deleteCalendar calendarId s) = selectedTemplate s
   \<and> viewMode (deleteCalendar calendarId s) = viewMode s"
  by (simp add: deleteCalendar_def Let_def split: list.splits)

theorem deleteCalendar_selection_witness:
  "selectedCalendarId store_abc = Some ''b''
   \<and> calendars (deleteCalendar ''b'' store_abc) = [cal_a, cal_c]
   \<and> selectedCalendarId (deleteCalendar ''b'' store_abc) = Some ''a''
   \<and> selectedCalendarId store_abc \<noteq> Some ''c''
   \<and> calendars (deleteCalendar ''c'' store_abc) = [cal_a, cal_b]
   \<and> selectedCalendarId (deleteCalendar ''c'' store_abc) = Some ''b''
   \<and> selectedCalendarId (store_abc\<lparr>calendars := [cal_b]\<rparr>) = Some ''b''
   \<and> calendars (deleteCalendar ''b'' (store_abc\<lparr>calendars := [cal_b]\<rparr>)) = []
   \<and> selectedCalendarId (deleteCalendar ''b'' (store_abc\<lparr>calendars := [cal_b]\<rparr>)) = None"
  using deleteCalendar_selection [of "''b''" store_abc]
    deleteCalendar_selection [of "''c''" store_abc]
    deleteCalendar_selection [of "''b''" "store_abc\<lparr>calendars := [cal_b]\<rparr>"]
  by (simp add: store_abc_def cal_a_def cal_b_def cal_c_def)

lemma updateCalendar_events:
  "(\<And>c. events (f c) = events c) \<Longrightarrow>
   map events (calendars (updateCalendar i f s)) = map events (calendars s)"
  by (simp add: updateCalendar_def)

lemma find_map_id:
  "(\<And>c. c_id (g c) = c_id c) \<Longrightarrow>
   find (\<lambda>c. c_id c = i) (map g xs) = map_option g (find (\<lambda>c. c_id c = i) xs)"
  by (induction xs) simp_all

lemma selectedCalendar_updateCalendar:
  assumes "\<And>c. c_id (f c) = c_id c"
  shows "selectedCalendar (updateCalendar i f s) =
         map_option (\<lambda>c. if c_id c = i then f c else c) (selectedCalendar s)"
proof -
  let ?g = "\<lambda>c. if c_id c = i then f c else c"
  have g: "\<And>c. c_id (?g c) = c_id c" using assms by simp
  have h: "(case map ?g xs of [] \<Rightarrow> None | c # _ \<Rightarrow> Some c) =
           map_option ?g (case xs of [] \<Rightarrow> None | c # _ \<Rightarrow> Some c)" for xs
    by (cases xs) simp_all
  show ?thesis
  proof (cases "selectedCalendarId s")
    case None
    then show ?thesis by (simp add: selectedCalendar_def updateCalendar_def h)
  next
    case (Some j)
    show ?thesis
    proof (cases "find (\<lambda>c. c_id c = j) (calendars s)")
      case None
      then show ?thesis
        using Some by (simp add: selectedCalendar_def updateCalendar_def h find_map_id[of ?g, OF g])
    next
      case (Some c)
      then show ?thesis
        using \<open>selectedCalendarId s = Some j\<close>
        by (simp add: selectedCalendar_def updateCalendar_def find_map_id[of ?g, OF g])
    qed
  qed
qed

lemma updateCalendar_frame:
  assumes "selectedCalendar s = Some sel" and "\<And>c. c_id (f c) = c_id c"
  shows "only_selected_changed s (updateCalendar (c_id sel) f s)"
proof -
  have "list_all2 (\<lambda>c c'. c_id c \<noteq> c_id sel \<longrightarrow> c' = c) xs
          (map (\<lambda>c. if c_id c = c_id sel then f c else c) xs)" for xs
    by (induction xs) simp_all
  then show ?thesis
    using assms by (simp add: only_selected_changed_def updateCalendar_def)
qed

lemma no_selection_frame: "selectedCalendar s = None \<Longrightarrow> only_selected_changed s s"
  by (simp add: only_selected_changed_def list_all2_same)

text \<open>
  C3. \<^verbatim>\<open>updateTemplate\<close> and \<^verbatim>\<open>deleteTemplate\<close> leave the event list of every
  calendar, the selected one included, as it was: the same events in the same order, each
  with its embedded template, start and end time. \<^verbatim>\<open>deleteTemplate\<close> changes the
  selected calendar's template list to the templates with another id.
\<close>

theorem template_ops_keep_events:
  "map events (calendars (updateTemplate templateId d s)) = map events (calendars s)
   \<and> map events (calendars (deleteTemplate templateId s)) = map events (calendars s)
   \<and> map_option events (selectedCalendar (updateTemplate templateId d s)) =
       map_option events (selectedCalendar s)
   \<and> map_option events (selectedCalendar (deleteTemplate templateId s)) =
       map_option events (selectedCalendar s)
   \<and> map_option templates (selectedCalendar (deleteTemplate templateId s)) =
       map_option (\<lambda>c. filter (\<lambda>t. t_id t \<noteq> templateId) (templates c)) (selectedCalendar s)"
proof (cases "selectedCalendar s")
  case None
  then show ?thesis by (simp add: updateTemplate_def deleteTemplate_def)
next
  case (Some sel)
  then show ?thesis
    by (simp add: updateTemplate_def deleteTemplate_def updateCalendar_events
        selectedCalendar_updateCalendar)
qed

lemma selectedCalendar_None_iff: "(selectedCalendar s = None) = (calendars s = [])"
  by (cases "calendars s")
     (auto simp: selectedCalendar_def split: option.splits)

text \<open>
  C10. Each of the six template and event mutations keeps the ids, number and order of
  the calendars and leaves every calendar whose id differs from the selected calendar's
  id as it was; with no selected calendar (the guard \<^verbatim>\<open>if (!selectedCalendar) return\<close>)
  the state is unchanged. The selected calendar is the one \<^verbatim>\<open>selectedCalendar\<close>
  denotes, which falls back to the first calendar when the selected id matches none, so
  there is no selected calendar exactly when there are no calendars.
\<close>

theorem mutations_touch_selected_only:
  "only_selected_changed s (addTemplate now td s)
   \<and> only_selected_changed s (updateTemplate templateId td s)
   \<and> only_selected_changed s (deleteTemplate templateId s)
   \<and> only_selected_changed s (addEvent now ed s)
   \<and> only_selected_changed s (updateEvent eid u s)
   \<and> only_selected_changed s (deleteEvent eid s)
   \<and> (selectedCalendar s = None) = (calendars s = [])"
proof (cases "selectedCalendar s")
  case None
  then show ?thesis
    using selectedCalendar_None_iff[of s]
    by (simp add: addTemplate_def updateTemplate_def deleteTemplate_def addEvent_def
        updateEvent_def deleteEvent_def no_selection_frame)
next
  case (Some sel)
  then show ?thesis
    using selectedCalendar_None_iff[of s]
    by (simp add: addTemplate_def updateTemplate_def deleteTemplate_def addEvent_def
        updateEvent_def deleteEvent_def updateCalendar_frame)
qed

lemma selectedCalendar_store_abc: "selectedCalendar store_abc = Some cal_b"
  by (simp add: selectedCalendar_def store_abc_def cal_a_def cal_b_def cal_c_def)

lemma selectedCalendar_store_empty: "selectedCalendar store_empty = None"
  by (simp add: selectedCalendar_def store_empty_def)

theorem mutations_touch_selected_only_witness:
  "selectedCalendar store_abc = Some cal_b
   \<and> calendars (addEvent 7 edata_math store_abc) =
       [cal_a, cal_b\<lparr>events := [new_event 7 edata_math]\<rparr>, cal_c]
   \<and> calendars (deleteTemplate ''t2'' store_abc) = [cal_a, cal_b\<lparr>templates := []\<rparr>, cal_c]
   \<and> only_selected_changed store_abc (addEvent 7 edata_math store_abc)
   \<and> only_selected_changed store_abc (deleteTemplate ''t2'' store_abc)
   \<and> selectedCalendar store_empty = None
   \<and> addTemplate 7 tdata_math store_empty = store_empty
   \<and> updateEvent ''e1'' updates_move store_empty = store_empty"
  using mutations_touch_selected_only [of store_abc 7 tdata_math "''t2''" edata_math "''e1''" updates_move]
    mutations_touch_selected_only [of store_empty 7 tdata_math "''t2''" edata_math "''e1''" updates_move]
    selectedCalendar_store_abc selectedCalendar_store_empty
  by (simp add: only_selected_changed_def addEvent_def deleteTemplate_def updateCalendar_def
      store_abc_def cal_a_def cal_b_def cal_c_def tmpl_art_def)

section \<open>Facts about dates\<close>

lemma div_succ:
  fixes a k :: int
  assumes "0 < k"
  shows "(a + 1) div k = a div k + (if (a + 1) mod k = 0 then 1 else 0)"
proof (cases "a mod k + 1 = k")
  case True
  have a: "a = k * (a div k) + a mod k" by simp
  have "a + 1 = k * (a div k) + (a mod k + 1)" using a by linarith
  also have "\<dots> = k * (a div k) + k" using True by simp
  also have "\<dots> = k * (a div k + 1) + 0" by (simp add: distrib_left)
  finally have e: "a + 1 = k * (a div k + 1) + 0" .
  have "(a + 1) div k = a div k + 1"
    using int_div_pos_eq[OF e] assms by simp
  moreover have "(a + 1) mod k = 0"
    using int_mod_pos_eq[OF e] assms by simp
  ultimately show ?thesis by simp
next
  case False
  have r: "0 \<le> a mod k" "a mod k < k" using assms by simp_all
  have a: "a = k * (a div k) + a mod k" by simp
  have e: "a + 1 = k * (a div k) + (a mod k + 1)" using a by linarith
  have r': "0 \<le> a mod k + 1" "a mod k + 1 < k" using r False by linarith+
  have "(a + 1) div k = a div k"
    using int_div_pos_eq[OF e r'] .
  moreover have "(a + 1) mod k = a mod k + 1"
    using int_mod_pos_eq[OF e r'] .
  ultimately show ?thesis using r by simp
qed

lemma mod_shift: "k dvd c \<Longrightarrow> ((y - c) mod k = 0) = (y mod k = 0)" for y k c :: int
  by (metis mod_eq_0_iff_dvd dvd_diff_left_iff)

lemma day_from_year_Suc:
  "day_from_year (y + 1) = day_from_year y + (if is_leap y then 366 else 365)"
proof -
  define a where "a = (y - 1969) div 4"
  define b where "b = (y - 1901) div 100"
  define c where "c = (y - 1601) div 400"
  define p4 :: int where "p4 = (if y mod 4 = 0 then 1 else 0)"
  define p100 :: int where "p100 = (if y mod 100 = 0 then 1 else 0)"
  define p400 :: int where "p400 = (if y mod 400 = 0 then 1 else 0)"
  have d4: "(y - 1968) div 4 = a + p4"
    using div_succ[of 4 "y - 1969"] mod_shift[of 4 1968 y] by (simp add: a_def p4_def)
  have d100: "(y - 1900) div 100 = b + p100"
    using div_succ[of 100 "y - 1901"] mod_shift[of 100 1900 y] by (simp add: b_def p100_def)
  have d400: "(y - 1600) div 400 = c + p400"
    using div_succ[of 400 "y - 1601"] mod_shift[of 400 1600 y] by (simp add: c_def p400_def)
  have n: "day_from_year (y + 1) =
      365 * (y - 1969) + (y - 1968) div 4 - (y - 1900) div 100 + (y - 1600) div 400"
    by (simp add: day_from_year_def algebra_simps)
  have n': "day_from_year (y + 1) = day_from_year y + 365 + p4 - p100 + p400"
    unfolding n d4 d100 d400 by (simp add: day_from_year_def a_def b_def c_def)
  have c1: "y mod 100 = 0 \<Longrightarrow> y mod 4 = 0" by auto
  have c2: "y mod 400 = 0 \<Longrightarrow> y mod 100 = 0" by auto
  have "p4 - p100 + p400 = (if is_leap y then 1 else 0)"
  proof (cases "y mod 400 = 0")
    case True
    then show ?thesis using c1 c2 by (simp add: p4_def p100_def p400_def is_leap_def)
  next
    case F: False
    show ?thesis
    proof (cases "y mod 100 = 0")
      case True
      then show ?thesis using F c1 by (simp add: p4_def p100_def p400_def is_leap_def)
    next
      case False
      then show ?thesis using F by (simp add: p4_def p100_def p400_def is_leap_def)
    qed
  qed
  then show ?thesis using n' by (cases "is_leap y") simp_all
qed

lemma month_start_12: "month_start y 12 = (if is_leap y then 366 else 365)"
  by (simp add: eval_nat_numeral days_in_month_def)

lemma days_in_month_bounds: "28 \<le> days_in_month y m" "days_in_month y m \<le> 31"
  by (simp_all add: days_in_month_def)

lemma MakeDay_in_range:
  "0 \<le> m \<Longrightarrow> m < 12 \<Longrightarrow> MakeDay y m d = day_from_year y + month_start y (nat m) + d - 1"
  by (simp add: MakeDay_def Let_def)

lemma MakeDay_normalise: "MakeDay (y + m div 12) (m mod 12) d = MakeDay y m d"
  by (simp add: MakeDay_def Let_def)

lemma MakeDay_add: "MakeDay y m (d + k) = MakeDay y m d + k"
  by (simp add: MakeDay_def Let_def)

lemma MakeDay_next_month:
  assumes "0 \<le> m" "m < 12"
  shows "MakeDay (if m = 11 then y + 1 else y) (if m = 11 then 0 else m + 1) d =
         MakeDay y m d + days_in_month y m"
proof (cases "m = 11")
  case True
  have "month_start y 12 = month_start y 11 + days_in_month y 11"
    by (simp add: eval_nat_numeral)
  then show ?thesis
    using True day_from_year_Suc[of y] month_start_12[of y]
    by (simp add: MakeDay_in_range)
next
  case False
  then have "nat (m + 1) = Suc (nat m)" using assms by simp
  then show ?thesis using False assms by (simp add: MakeDay_in_range)
qed

lemma MakeDay_prev_month:
  assumes "0 \<le> m" "m < 12"
  shows "MakeDay (if m = 0 then y - 1 else y) (if m = 0 then 11 else m - 1) d +
           days_in_month (if m = 0 then y - 1 else y) (if m = 0 then 11 else m - 1) =
         MakeDay y m d"
proof (cases "m = 0")
  case True
  then show ?thesis using MakeDay_next_month[of 11 "y - 1" d] by simp
next
  case False
  then show ?thesis using MakeDay_next_month[of "m - 1" y d] assms by simp
qed

lemma norm_date_id:
  "1 \<le> d \<Longrightarrow> d \<le> days_in_month y m \<Longrightarrow> norm_date y m d = (y, m, d)"
  by (simp add: norm_date.simps)

lemma norm_date_correct:
  "0 \<le> m \<Longrightarrow> m < 12 \<Longrightarrow> norm_date y m d = (y', m', d') \<Longrightarrow>
   0 \<le> m' \<and> m' < 12 \<and> 1 \<le> d' \<and> d' \<le> days_in_month y' m' \<and> MakeDay y' m' d' = MakeDay y m d"
proof (induction y m d rule: norm_date.induct)
  case (1 y m d)
  show ?case
  proof (cases "d < 1")
    case True
    let ?y = "if m = 0 then y - 1 else y" and ?m = "if m = 0 then 11 else m - 1"
    have n: "norm_date ?y ?m (d + days_in_month ?y ?m) = (y', m', d')"
      using "1.prems"(3) True by (subst (asm) norm_date.simps) (simp add: Let_def)
    have r: "0 \<le> ?m" "?m < 12" using "1.prems" by auto
    have "0 \<le> m' \<and> m' < 12 \<and> 1 \<le> d' \<and> d' \<le> days_in_month y' m' \<and>
          MakeDay y' m' d' = MakeDay ?y ?m (d + days_in_month ?y ?m)"
      using "1.IH"(1)[OF True refl refl r n] .
    moreover have "MakeDay ?y ?m (d + days_in_month ?y ?m) = MakeDay y m d"
      using MakeDay_prev_month[OF "1.prems"(1,2), of y d] by (simp add: MakeDay_add)
    ultimately show ?thesis by simp
  next
    case False
    show ?thesis
    proof (cases "days_in_month y m < d")
      case True
      let ?y = "if m = 11 then y + 1 else y" and ?m = "if m = 11 then 0 else m + 1"
      have n: "norm_date ?y ?m (d - days_in_month y m) = (y', m', d')"
        using "1.prems"(3) True False by (subst (asm) norm_date.simps) (simp add: Let_def)
      have r: "0 \<le> ?m" "?m < 12" using "1.prems" by auto
      have "0 \<le> m' \<and> m' < 12 \<and> 1 \<le> d' \<and> d' \<le> days_in_month y' m' \<and>
            MakeDay y' m' d' = MakeDay ?y ?m (d - days_in_month y m)"
        using "1.IH"(2)[OF False True refl refl r n] .
      moreover have "MakeDay ?y ?m (d - days_in_month y m) = MakeDay y m d"
        using MakeDay_next_month[OF "1.prems"(1,2), of y "d - days_in_month y m"]
        by (simp add: MakeDay_add[of y m "d - days_in_month y m" "days_in_month y m", symmetric])
      ultimately show ?thesis by simp
    next
      case F2: False
      then have "norm_date y m d = (y, m, d)" using False by (simp add: norm_date.simps)
      then show ?thesis using "1.prems" False F2 by simp
    qed
  qed
qed

lemma civil_of_day_correct:
  assumes "civil_of_day n = (y, m, d)"
  shows "0 \<le> m \<and> m < 12 \<and> 1 \<le> d \<and> d \<le> days_in_month y m \<and> MakeDay y m d = n"
proof -
  define y0 where "y0 = 1970 + (400 * n) div 146097"
  have n: "norm_date y0 0 (n - day_from_year y0 + 1) = (y, m, d)"
    using assms by (simp add: civil_of_day_def Let_def y0_def)
  have "MakeDay y0 0 (n - day_from_year y0 + 1) = n"
    by (simp add: MakeDay_def Let_def)
  with norm_date_correct[OF _ _ n] show ?thesis by simp
qed


lemma getters_valid:
  "0 \<le> getMonth z t \<and> getMonth z t < 12 \<and> 1 \<le> getDate z t
   \<and> getDate z t \<le> days_in_month (getFullYear z t) (getMonth z t)"
proof -
  obtain y m d where c: "civil_of_day (Day (LocalTime z t)) = (y, m, d)"
    by (metis prod_cases3)
  from civil_of_day_correct[OF c] c show ?thesis
    by (simp add: getFullYear_def getMonth_def getDate_def YearFromTime_def MonthFromTime_def
        DateFromTime_def)
qed

lemma round_double_exact: "\<bar>x\<bar> < 9007199254740992 \<Longrightarrow> round_double x = Some x"
  by (simp add: round_double_def Let_def)

lemma truncate_num_int: "truncate_num (Fin (of_int n)) = Some n"
  by (simp add: truncate_num_def)

lemma MakeTime_exact:
  assumes "\<bar>h\<bar> \<le> 1000000" "\<bar>m\<bar> \<le> 1000000"
  shows "MakeTime (Fin (of_int h)) (Fin (of_int m)) = Some (h * 3600000 + m * 60000)"
proof -
  have a: "\<bar>h * 3600000\<bar> < 9007199254740992" "\<bar>m * 60000\<bar> < 9007199254740992"
    "\<bar>h * 3600000 + m * 60000\<bar> < 9007199254740992"
    using assms by linarith+
  show ?thesis
    by (simp add: MakeTime_def truncate_num_int round_double_exact[OF a(1)]
        round_double_exact[OF a(2)] round_double_exact[OF a(3)])
qed


text \<open>
  A constructor call whose arithmetic stays below \<open>2^53\<close> and whose result is inside
  the range of time values gives the instant at which the local clock shows the given
  date and time.
\<close>

lemma new_Date_exact:
  assumes "\<bar>h\<bar> \<le> 1000000" "\<bar>mi\<bar> \<le> 1000000"
    and "\<bar>MakeDay (legacy_year y) m d * msPerDay\<bar> < 9007199254740992"
    and "\<bar>MakeDay (legacy_year y) m d * msPerDay + (h * 3600000 + mi * 60000)\<bar> < 9007199254740992"
    and "\<bar>MakeDay (legacy_year y) m d * msPerDay + (h * 3600000 + mi * 60000)
          - offset_at_local z (MakeDay (legacy_year y) m d * msPerDay + (h * 3600000 + mi * 60000))\<bar>
         \<le> max_time"
  shows "new_Date z (Some y) (Some m) (Some d) (Fin (of_int h)) (Fin (of_int mi)) =
         Some (MakeDay (legacy_year y) m d * msPerDay + (h * 3600000 + mi * 60000)
               - offset_at_local z (MakeDay (legacy_year y) m d * msPerDay + (h * 3600000 + mi * 60000)))"
proof -
  have u: "\<bar>MakeDay (legacy_year y) m d * msPerDay + (h * 3600000 + mi * 60000)
          - offset_at_local z (MakeDay (legacy_year y) m d * msPerDay + (h * 3600000 + mi * 60000))\<bar>
         < 9007199254740992"
    using assms(5) by (simp add: max_time_def)
  show ?thesis
    using assms(5)
    by (simp add: new_Date_def MakeTime_exact[OF assms(1,2)] MakeDate_def UTC_def TimeClip_def
        round_double_exact[OF assms(3)] round_double_exact[OF assms(4)] round_double_exact[OF u])
qed

text \<open>
  Each day number is the day of one calendar date: \<open>civil_of_day\<close> inverts \<open>MakeDay\<close>
  on dates whose month and day are in range.
\<close>

lemma day_from_year_mono: "y \<le> y' \<Longrightarrow> day_from_year y \<le> day_from_year y'"
proof -
  have "day_from_year y \<le> day_from_year (y + int k)" for k
  proof (induction k)
    case 0
    show ?case by simp
  next
    case (Suc k)
    have "y + int (Suc k) = (y + int k) + 1" by simp
    then have "day_from_year (y + int (Suc k)) = day_from_year ((y + int k) + 1)"
      by (simp only:)
    also have "\<dots> \<ge> day_from_year (y + int k)"
      unfolding day_from_year_Suc by simp
    finally show ?case using Suc by linarith
  qed
  from this[of "nat (y' - y)"] show "y \<le> y' \<Longrightarrow> day_from_year y \<le> day_from_year y'" by simp
qed

lemma month_start_mono: "m \<le> m' \<Longrightarrow> month_start y m \<le> month_start y m'"
proof (induction m')
  case 0
  then show ?case by simp
next
  case (Suc m')
  show ?case
  proof (cases "m = Suc m'")
    case True
    then show ?thesis by simp
  next
    case False
    then have "m \<le> m'" using Suc.prems by simp
    from Suc.IH[OF this] days_in_month_bounds(1)[of y "int m'"] show ?thesis by simp
  qed
qed

lemma MakeDay_within_year:
  assumes "0 \<le> m" "m < 12" "1 \<le> d" "d \<le> days_in_month y m"
  shows "day_from_year y \<le> MakeDay y m d" "MakeDay y m d < day_from_year (y + 1)"
proof -
  have s: "0 \<le> month_start y (nat m)" using month_start_mono[of 0 "nat m" y] by simp
  have "Suc (nat m) \<le> 12" using assms by simp
  from month_start_mono[OF this, of y]
  have u: "month_start y (nat m) + days_in_month y m \<le> month_start y 12" using assms by simp
  show "day_from_year y \<le> MakeDay y m d"
    using s assms by (simp add: MakeDay_in_range)
  show "MakeDay y m d < day_from_year (y + 1)"
    using u assms unfolding day_from_year_Suc month_start_12 MakeDay_in_range[OF assms(1,2)]
    by (cases "is_leap y") simp_all
qed

lemma MakeDay_inj_year:
  assumes "0 \<le> m" "m < 12" "1 \<le> d" "d \<le> days_in_month y m"
    and "0 \<le> m'" "m' < 12" "1 \<le> d'" "d' \<le> days_in_month y' m'"
    and "MakeDay y m d = MakeDay y' m' d'"
  shows "y = y'"
proof (rule ccontr)
  assume "y \<noteq> y'"
  then consider "y + 1 \<le> y'" | "y' + 1 \<le> y" by linarith
  then show False
  proof cases
    case 1
    from day_from_year_mono[OF 1] MakeDay_within_year(2)[OF assms(1-4)]
      MakeDay_within_year(1)[OF assms(5-8)] assms(9)
    show False by linarith
  next
    case 2
    from day_from_year_mono[OF 2] MakeDay_within_year(2)[OF assms(5-8)]
      MakeDay_within_year(1)[OF assms(1-4)] assms(9)
    show False by linarith
  qed
qed

lemma MakeDay_lt_month:
  assumes "0 \<le> m" "m < m'" "m' < 12" "d \<le> days_in_month y m" "1 \<le> d'"
  shows "MakeDay y m d < MakeDay y m' d'"
proof -
  have "Suc (nat m) \<le> nat m'" using assms by simp
  from month_start_mono[OF this, of y]
  have "month_start y (nat m) + days_in_month y m \<le> month_start y (nat m')" using assms by simp
  then show ?thesis using assms by (simp add: MakeDay_in_range)
qed

lemma MakeDay_inj:
  assumes "0 \<le> m" "m < 12" "1 \<le> d" "d \<le> days_in_month y m"
    and "0 \<le> m'" "m' < 12" "1 \<le> d'" "d' \<le> days_in_month y' m'"
    and "MakeDay y m d = MakeDay y' m' d'"
  shows "y = y' \<and> m = m' \<and> d = d'"
proof -
  have y: "y = y'" using MakeDay_inj_year[OF assms] .
  have m: "m = m'"
  proof (rule ccontr)
    assume "m \<noteq> m'"
    then consider "m < m'" | "m' < m" by linarith
    then show False
    proof cases
      case 1
      from MakeDay_lt_month[OF assms(1) 1 assms(6) assms(4) assms(7)] assms(9) y
      show False by simp
    next
      case 2
      from MakeDay_lt_month[OF assms(5) 2 assms(2) assms(8) assms(3)] assms(9) y
      show False by simp
    qed
  qed
  have "d = d'" using assms(9) assms(1,2) y m by (simp add: MakeDay_in_range)
  with y m show ?thesis by simp
qed

lemma civil_of_day_MakeDay:
  assumes "0 \<le> m" "m < 12" "1 \<le> d" "d \<le> days_in_month y m"
  shows "civil_of_day (MakeDay y m d) = (y, m, d)"
proof -
  obtain y' m' d' where c: "civil_of_day (MakeDay y m d) = (y', m', d')"
    by (metis prod_cases3)
  from civil_of_day_correct[OF c]
  have v: "0 \<le> m'" "m' < 12" "1 \<le> d'" "d' \<le> days_in_month y' m'"
    and e: "MakeDay y' m' d' = MakeDay y m d" by simp_all
  from MakeDay_inj[OF v assms e] c show ?thesis by simp
qed

section \<open>The month grid\<close>

lemma upt_Suc_shift: "map f [0..<Suc n] = f 0 # map (\<lambda>j. f (Suc j)) [0..<n]"
  by (simp add: upt_conv_Cons map_Suc_upt[symmetric] del: upt_Suc)

lemma leading_loop_closed:
  "leading_loop z i p y m acc =
   acc @ map (\<lambda>j. leading_cell z p y m (i - int j)) [0..<nat (i + 1)]"
proof (induction z i p y m acc rule: leading_loop.induct)
  case (1 z i p y m acc)
  show ?case
  proof (cases "0 \<le> i")
    case True
    have n: "nat (i + 1) = Suc (nat (i - 1 + 1))" using True by simp
    have "leading_loop z i p y m acc =
        leading_loop z (i - 1) p y m (acc @ [leading_cell z p y m i])"
      using True by (subst leading_loop.simps) simp
    also have "\<dots> = (acc @ [leading_cell z p y m i]) @
        map (\<lambda>j. leading_cell z p y m (i - 1 - int j)) [0..<nat (i - 1 + 1)]"
      using "1.IH"[OF True] .
    also have "\<dots> = acc @ map (\<lambda>j. leading_cell z p y m (i - int j)) [0..<nat (i + 1)]"
      unfolding n upt_Suc_shift by (simp add: algebra_simps)
    finally show ?thesis .
  next
    case False
    then show ?thesis by (subst leading_loop.simps) simp
  qed
qed

lemma current_loop_closed:
  "current_loop z d l y m acc =
   acc @ map (\<lambda>j. current_cell z y m (d + int j)) [0..<nat (l + 1 - d)]"
proof (induction z d l y m acc rule: current_loop.induct)
  case (1 z d l y m acc)
  show ?case
  proof (cases "d \<le> l")
    case True
    have n: "nat (l + 1 - d) = Suc (nat (l + 1 - (d + 1)))" using True by simp
    have "current_loop z d l y m acc =
        current_loop z (d + 1) l y m (acc @ [current_cell z y m d])"
      using True by (subst current_loop.simps) simp
    also have "\<dots> = (acc @ [current_cell z y m d]) @
        map (\<lambda>j. current_cell z y m (d + 1 + int j)) [0..<nat (l + 1 - (d + 1))]"
      using "1.IH"[OF True] .
    also have "\<dots> = acc @ map (\<lambda>j. current_cell z y m (d + int j)) [0..<nat (l + 1 - d)]"
      unfolding n upt_Suc_shift by (simp add: algebra_simps)
    finally show ?thesis .
  next
    case False
    then show ?thesis by (subst current_loop.simps) simp
  qed
qed

lemma trailing_loop_closed:
  "trailing_loop z d r y m acc =
   acc @ map (\<lambda>j. trailing_cell z y m (d + int j)) [0..<nat (r + 1 - d)]"
proof (induction z d r y m acc rule: trailing_loop.induct)
  case (1 z d r y m acc)
  show ?case
  proof (cases "d \<le> r")
    case True
    have n: "nat (r + 1 - d) = Suc (nat (r + 1 - (d + 1)))" using True by simp
    have "trailing_loop z d r y m acc =
        trailing_loop z (d + 1) r y m (acc @ [trailing_cell z y m d])"
      using True by (subst trailing_loop.simps) simp
    also have "\<dots> = (acc @ [trailing_cell z y m d]) @
        map (\<lambda>j. trailing_cell z y m (d + 1 + int j)) [0..<nat (r + 1 - (d + 1))]"
      using "1.IH"[OF True] .
    also have "\<dots> = acc @ map (\<lambda>j. trailing_cell z y m (d + int j)) [0..<nat (r + 1 - d)]"
      unfolding n upt_Suc_shift by (simp add: algebra_simps)
    finally show ?thesis .
  next
    case False
    then show ?thesis by (subst trailing_loop.simps) simp
  qed
qed

lemma replicate_map_const: "map (\<lambda>j. c) [0..<n] = replicate n c"
  by (induction n) (simp_all add: replicate_append_same)

lemma monday_shift:
  fixes F :: int
  shows "(((F - (F + 4 + 6) mod 7 + i) + 4) mod 7 + 6) mod 7 = i mod 7"
  by presburger

lemma MakeDay_from_first: "MakeDay y m d = MakeDay y m 1 + (d - 1)"
  by (simp add: MakeDay_def Let_def)

lemma MakeDay_month_before:
  assumes "0 \<le> m" "m < 12"
  shows "MakeDay y (m - 1) d = MakeDay (fst (prev_month y m)) (snd (prev_month y m)) d"
proof (cases "m = 0")
  case True
  have "(- 1 :: int) div 12 = - 1" "(- 1 :: int) mod 12 = 11" by simp_all
  then show ?thesis using True by (simp add: MakeDay_def prev_month_def Let_def)
next
  case False
  then show ?thesis by (simp add: prev_month_def)
qed

lemma MakeDay_month_after:
  assumes "0 \<le> m" "m < 12"
  shows "MakeDay y (m + 1) d = MakeDay (fst (next_month y m)) (snd (next_month y m)) d"
proof (cases "m = 11")
  case True
  then show ?thesis by (simp add: MakeDay_def next_month_def Let_def)
next
  case False
  then show ?thesis by (simp add: next_month_def)
qed

text \<open>A constructor call for local midnight of a representable day, and its accessors.\<close>

lemma new_Date_midnight:
  assumes "y < 0 \<or> 99 < y" and "days_representable z a b"
    and "a \<le> MakeDay y m d" "MakeDay y m d \<le> b"
  shows "new_Date z (Some y) (Some m) (Some d) (Fin 0) (Fin 0) = Some (midnight z (MakeDay y m d))"
proof -
  have l: "legacy_year y = y" using assms(1) by (auto simp: legacy_year_def)
  have r: "\<bar>MakeDay y m d * msPerDay\<bar> < 9007199254740992"
    "\<bar>midnight z (MakeDay y m d)\<bar> \<le> max_time"
    using assms(2,3,4) by (simp_all add: days_representable_def)
  have "new_Date z (Some y) (Some m) (Some d) (Fin (of_int 0)) (Fin (of_int 0)) =
      Some (MakeDay (legacy_year y) m d * msPerDay + (0 * 3600000 + 0 * 60000)
            - offset_at_local z (MakeDay (legacy_year y) m d * msPerDay + (0 * 3600000 + 0 * 60000)))"
    using r by (intro new_Date_exact) (simp_all add: l midnight_def)
  then show ?thesis by (simp add: l midnight_def)
qed

lemma getters_midnight:
  assumes "days_representable z a b" and "a \<le> MakeDay y m d" "MakeDay y m d \<le> b"
    and "0 \<le> m" "m < 12" "1 \<le> d" "d \<le> days_in_month y m"
  shows "getFullYear z (midnight z (MakeDay y m d)) = y"
    "getMonth z (midnight z (MakeDay y m d)) = m"
    "getDate z (midnight z (MakeDay y m d)) = d"
proof -
  have "Day (LocalTime z (midnight z (MakeDay y m d))) = MakeDay y m d"
    using assms(1,2,3) by (simp add: days_representable_def)
  then show "getFullYear z (midnight z (MakeDay y m d)) = y"
    "getMonth z (midnight z (MakeDay y m d)) = m"
    "getDate z (midnight z (MakeDay y m d)) = d"
    by (simp_all add: getFullYear_def getMonth_def getDate_def YearFromTime_def MonthFromTime_def
        DateFromTime_def civil_of_day_MakeDay[OF assms(4-7)])
qed

lemma getDay_midnight:
  assumes "days_representable z a b" and "a \<le> n" "n \<le> b"
  shows "getDay z (midnight z n) = (n + 4) mod 7"
  using assms by (simp add: days_representable_def getDay_def WeekDay_def)

lemma generateCalendarDays_closed:
  assumes q: "getFullYear z t < 0 \<or> 99 < getFullYear z t"
  defines "y \<equiv> getFullYear z t" and "m \<equiv> getMonth z t"
  defines "F \<equiv> MakeDay (getFullYear z t) (getMonth z t) 1"
  defines "dp \<equiv> days_in_month (fst (prev_month (getFullYear z t) (getMonth z t)))
                   (snd (prev_month (getFullYear z t) (getMonth z t)))"
  defines "k \<equiv> grid_lead z t" and "n \<equiv> month_length z t"
  assumes R: "days_representable z (F - 6) (F + 41)"
  shows "generateCalendarDays z (Some t) =
    map (\<lambda>j. \<lparr>cell_date = Some (dp - (int k - 1 - int j)), isCurrentMonth = False,
               isNextMonth = False,
               fullDate = Some (midnight z (F - int k + int j))\<rparr>) [0..<k]
    @ map (\<lambda>j. \<lparr>cell_date = Some (1 + int j), isCurrentMonth = True, isNextMonth = False,
                 fullDate = Some (midnight z (F + int j))\<rparr>) [0..<n]
    @ map (\<lambda>j. \<lparr>cell_date = Some (1 + int j), isCurrentMonth = False, isNextMonth = True,
                 fullDate = Some (midnight z (F + int n + int j))\<rparr>) [0..<42 - k - n]"
    and "k \<le> 6" and "28 \<le> n" and "n \<le> 31"
proof -
  define yp where "yp = fst (prev_month y m)"
  define mp where "mp = snd (prev_month y m)"
  define yn where "yn = fst (next_month y m)"
  define mn where "mn = snd (next_month y m)"
  define dm where "dm = days_in_month y m"
  have v: "0 \<le> m" "m < 12" using getters_valid[of z t] by (simp_all add: m_def)
  have q': "y < 0 \<or> 99 < y" using q by (simp add: y_def)
  have Fd: "F = MakeDay y m 1" by (simp add: F_def y_def m_def)
  have dpd: "dp = days_in_month yp mp" by (simp add: dp_def yp_def mp_def y_def m_def)
  have vp: "0 \<le> mp" "mp < 12" using v by (simp_all add: mp_def prev_month_def)
  have kz: "int k = (F + 4 + 6) mod 7" by (simp add: k_def grid_lead_def F_def)
  have k6: "int k \<le> 6" unfolding kz using pos_mod_bound[of 7 "F + 4 + 6"] by linarith
  have nz: "int n = dm"
    using days_in_month_bounds(1)[of y m] by (simp add: n_def month_length_def y_def m_def dm_def)
  have nb: "28 \<le> n" "n \<le> 31"
    using days_in_month_bounds[of y m] nz by (simp_all add: dm_def)
  have dpb: "28 \<le> dp" "dp \<le> 31" using days_in_month_bounds[of yp mp] by (simp_all add: dpd)
  have md: "MakeDay y' m' d = MakeDay y' m' 1 + (d - 1)" for y' m' d
    by (rule MakeDay_from_first)
  have prevF: "MakeDay yp mp d + dp = MakeDay y m d" for d
    using MakeDay_prev_month[OF v, of y d]
    by (cases "m = 0") (simp_all add: yp_def mp_def prev_month_def dpd)
  have nextF: "MakeDay yn mn d = MakeDay y m d + dm" for d
    using MakeDay_next_month[OF v, of y d]
    by (cases "m = 11") (simp_all add: yn_def mn_def next_month_def dm_def)
  have M0: "MakeDay y m 0 = F - 1" using md[of y m 0] by (simp add: Fd)
  have Mp: "MakeDay yp mp d = F - 1 - dp + d" for d
    using prevF[of d] md[of y m d] by (simp add: Fd)
  have Mb: "MakeDay y (m - 1) d = F - 1 - dp + d" for d
    using MakeDay_month_before[OF v, of y d] Mp[of d] by (simp add: yp_def mp_def)
  have Ma: "MakeDay y (m + 1) d = F + dm + d - 1" for d
    using MakeDay_month_after[OF v, of y d] nextF[of d] md[of y m d]
    by (simp add: yn_def mn_def Fd)
  have Mc: "MakeDay y m d = F + d - 1" for d using md[of y m d] by (simp add: Fd)
  have first: "new_Date z (Some y) (Some m) (Some 1) (Fin 0) (Fin 0) = Some (midnight z F)"
    using new_Date_midnight[OF q' R, of m 1] by (simp add: Mc)
  have prev: "new_Date z (Some y) (Some m) (Some 0) (Fin 0) (Fin 0) = Some (midnight z (F - 1))"
    using new_Date_midnight[OF q' R, of m 0] by (simp add: M0)
  have last: "new_Date z (Some y) (Some (m + 1)) (Some 0) (Fin 0) (Fin 0) =
      Some (midnight z (F + dm - 1))"
    using new_Date_midnight[OF q' R, of "m + 1" 0] nb nz by (simp add: Ma)
  have gd: "getDay z (midnight z F) = (F + 4) mod 7"
    using getDay_midnight[OF R, of F] by simp
  have fdw: "(getDay z (midnight z F) + 6) mod 7 = int k"
    unfolding gd kz by (simp add: mod_add_left_eq)
  have gp: "getDate z (midnight z (F - 1)) = dp"
    using getters_midnight(3)[OF R, of yp mp dp] vp dpb by (simp add: Mp dpd)
  have gl: "getDate z (midnight z (F + dm - 1)) = dm"
    using getters_midnight(3)[OF R, of y m dm] v nb nz by (simp add: Mc dm_def)
  have lead: "leading_cell z (Some (midnight z (F - 1))) (Some y) (Some m) (int k - 1 - int j) =
      \<lparr>cell_date = Some (dp - (int k - 1 - int j)), isCurrentMonth = False, isNextMonth = False,
       fullDate = Some (midnight z (F - int k + int j))\<rparr>" if "j < k" for j
  proof -
    have e: "MakeDay y (m - 1) (dp - (int k - 1 - int j)) = F - int k + int j"
      by (simp add: Mb)
    have "new_Date z (Some y) (Some (m - 1)) (Some (dp - (int k - 1 - int j))) (Fin 0) (Fin 0) =
        Some (midnight z (MakeDay y (m - 1) (dp - (int k - 1 - int j))))"
      using that k6 by (intro new_Date_midnight[OF q' R]) (simp_all add: Mb)
    then show ?thesis unfolding e by (simp add: leading_cell_def gp)
  qed
  have cur: "current_cell z (Some y) (Some m) (1 + int j) =
      \<lparr>cell_date = Some (1 + int j), isCurrentMonth = True, isNextMonth = False,
       fullDate = Some (midnight z (F + int j))\<rparr>" if "j < n" for j
  proof -
    have e: "MakeDay y m (1 + int j) = F + int j" by (simp add: Mc)
    have "new_Date z (Some y) (Some m) (Some (1 + int j)) (Fin 0) (Fin 0) =
        Some (midnight z (MakeDay y m (1 + int j)))"
      using that nb by (intro new_Date_midnight[OF q' R]) (simp_all add: Mc)
    then show ?thesis unfolding e by (simp add: current_cell_def)
  qed
  have trail: "trailing_cell z (Some y) (Some m) (1 + int j) =
      \<lparr>cell_date = Some (1 + int j), isCurrentMonth = False, isNextMonth = True,
       fullDate = Some (midnight z (F + int n + int j))\<rparr>" if "j < 42 - k - n" for j
  proof -
    have e: "MakeDay y (m + 1) (1 + int j) = F + int n + int j" by (simp add: Ma nz)
    have "new_Date z (Some y) (Some (m + 1)) (Some (1 + int j)) (Fin 0) (Fin 0) =
        Some (midnight z (MakeDay y (m + 1) (1 + int j)))"
      using that nb nz by (intro new_Date_midnight[OF q' R]) (simp_all add: Ma)
    then show ?thesis unfolding e by (simp add: trailing_cell_def)
  qed
  define lead where
    "lead = map (\<lambda>j. leading_cell z (Some (midnight z (F - 1))) (Some y) (Some m) (int k - 1 - int j))
              [0..<k]"
  define cur where "cur = lead @ map (\<lambda>j. current_cell z (Some y) (Some m) (1 + int j)) [0..<n]"
  have L: "leading_loop z (int k - 1) (Some (midnight z (F - 1))) (Some y) (Some m) [] = lead"
    by (simp add: leading_loop_closed lead_def)
  have C: "current_loop z 1 dm (Some y) (Some m) lead = cur"
    by (simp add: current_loop_closed cur_def nz[symmetric])
  have lenC: "length cur = k + n" by (simp add: cur_def lead_def)
  have e: "nat (42 - int (k + n) + 1 - 1) = 42 - k - n" by arith
  have T: "trailing_loop z 1 (42 - int (length cur)) (Some y) (Some m) cur =
      cur @ map (\<lambda>j. trailing_cell z (Some y) (Some m) (1 + int j)) [0..<42 - k - n]"
    unfolding trailing_loop_closed lenC e ..
  have "generateCalendarDays z (Some t) =
      trailing_loop z 1 (42 - int (length cur)) (Some y) (Some m) cur"
    unfolding generateCalendarDays_def Let_def option.map y_def[symmetric] m_def[symmetric]
      first last prev fdw gl option.case L C ..
  also have "\<dots> =
      map (\<lambda>j. leading_cell z (Some (midnight z (F - 1))) (Some y) (Some m) (int k - 1 - int j)) [0..<k]
      @ map (\<lambda>j. current_cell z (Some y) (Some m) (1 + int j)) [0..<n]
      @ map (\<lambda>j. trailing_cell z (Some y) (Some m) (1 + int j)) [0..<42 - k - n]"
    unfolding T by (simp add: cur_def lead_def)
  also have "\<dots> =
    map (\<lambda>j. \<lparr>cell_date = Some (dp - (int k - 1 - int j)), isCurrentMonth = False,
               isNextMonth = False,
               fullDate = Some (midnight z (F - int k + int j))\<rparr>) [0..<k]
    @ map (\<lambda>j. \<lparr>cell_date = Some (1 + int j), isCurrentMonth = True, isNextMonth = False,
                 fullDate = Some (midnight z (F + int j))\<rparr>) [0..<n]
    @ map (\<lambda>j. \<lparr>cell_date = Some (1 + int j), isCurrentMonth = False, isNextMonth = True,
                 fullDate = Some (midnight z (F + int n + int j))\<rparr>) [0..<42 - k - n]"
    using lead cur trail by (intro arg_cong2[where f = "(@)"] map_cong refl) simp_all
  finally show "generateCalendarDays z (Some t) =
    map (\<lambda>j. \<lparr>cell_date = Some (dp - (int k - 1 - int j)), isCurrentMonth = False,
               isNextMonth = False,
               fullDate = Some (midnight z (F - int k + int j))\<rparr>) [0..<k]
    @ map (\<lambda>j. \<lparr>cell_date = Some (1 + int j), isCurrentMonth = True, isNextMonth = False,
                 fullDate = Some (midnight z (F + int j))\<rparr>) [0..<n]
    @ map (\<lambda>j. \<lparr>cell_date = Some (1 + int j), isCurrentMonth = False, isNextMonth = True,
                 fullDate = Some (midnight z (F + int n + int j))\<rparr>) [0..<42 - k - n]" .
  show "k \<le> 6" using k6 by simp
  show "28 \<le> n" "n \<le> 31" using nb by simp_all
qed

text \<open>
  The grid of a valid reference date outside the years 0 to 99 whose window of six days
  before and 41 days after the first of the month is representable. The grid has 42
  cells. Its cells are the local midnights of 42 consecutive days, the first a Monday, so
  that cell \<open>i\<close> falls on weekday index \<open>i mod 7\<close>: six Monday-first weeks. The cells
  of the current month form one run, after \<open>grid_lead\<close> cells of the previous month and
  before cells of the next month, and the run has as many cells as the month has days: it
  holds the days 1, 2, ... of that month in order, the cells before it the last days of
  the previous month, the cells after it the days 1, 2, ... of the next month.
\<close>

lemma month_grid:
  assumes "getFullYear z t < 0 \<or> 99 < getFullYear z t"
    and "days_representable z (MakeDay (getFullYear z t) (getMonth z t) 1 - 6)
           (MakeDay (getFullYear z t) (getMonth z t) 1 + 41)"
  shows "length (generateCalendarDays z (Some t)) = 42
    \<and> grid_lead z t \<le> 6
    \<and> map isCurrentMonth (generateCalendarDays z (Some t)) =
        replicate (grid_lead z t) False @ replicate (month_length z t) True
        @ replicate (42 - grid_lead z t - month_length z t) False
    \<and> int (month_length z t) = days_in_month (getFullYear z t) (getMonth z t)
    \<and> (\<forall>i<42. fullDate (generateCalendarDays z (Some t) ! i) =
          Some (midnight z (MakeDay (getFullYear z t) (getMonth z t) 1 - int (grid_lead z t) + int i)))
    \<and> (\<forall>i<42. map_option (nowDay_of z) (fullDate (generateCalendarDays z (Some t) ! i)) =
          Some (int (i mod 7)))
    \<and> (\<forall>i<grid_lead z t.
          map_option (\<lambda>d. (getFullYear z d, getMonth z d))
            (fullDate (generateCalendarDays z (Some t) ! i)) =
            Some (prev_month (getFullYear z t) (getMonth z t))
          \<and> cell_date (generateCalendarDays z (Some t) ! i) =
              map_option (getDate z) (fullDate (generateCalendarDays z (Some t) ! i)))
    \<and> (\<forall>i<month_length z t.
          cell_date (generateCalendarDays z (Some t) ! (grid_lead z t + i)) = Some (1 + int i)
          \<and> map_option (\<lambda>d. (getFullYear z d, getMonth z d, getDate z d))
              (fullDate (generateCalendarDays z (Some t) ! (grid_lead z t + i))) =
              Some (getFullYear z t, getMonth z t, 1 + int i))
    \<and> (\<forall>i<42 - grid_lead z t - month_length z t.
          cell_date (generateCalendarDays z (Some t) ! (grid_lead z t + month_length z t + i)) =
            Some (1 + int i)
          \<and> isNextMonth (generateCalendarDays z (Some t) ! (grid_lead z t + month_length z t + i))
          \<and> map_option (\<lambda>d. (getFullYear z d, getMonth z d, getDate z d))
              (fullDate (generateCalendarDays z (Some t) ! (grid_lead z t + month_length z t + i))) =
              Some (fst (next_month (getFullYear z t) (getMonth z t)),
                    snd (next_month (getFullYear z t) (getMonth z t)), 1 + int i))"
proof -
  define y where "y = getFullYear z t"
  define m where "m = getMonth z t"
  define yp where "yp = fst (prev_month y m)"
  define mp where "mp = snd (prev_month y m)"
  define yn where "yn = fst (next_month y m)"
  define mn where "mn = snd (next_month y m)"
  define dp where "dp = days_in_month yp mp"
  define k where "k = grid_lead z t"
  define n where "n = month_length z t"
  define F where "F = MakeDay y m 1"
  define A where "A = map (\<lambda>j. \<lparr>cell_date = Some (dp - (int k - 1 - int j)),
      isCurrentMonth = False, isNextMonth = False,
      fullDate = Some (midnight z (F - int k + int j))\<rparr>) [0..<k]"
  define B where "B = map (\<lambda>j. \<lparr>cell_date = Some (1 + int j), isCurrentMonth = True,
      isNextMonth = False, fullDate = Some (midnight z (F + int j))\<rparr>) [0..<n]"
  define C where "C = map (\<lambda>j. \<lparr>cell_date = Some (1 + int j), isCurrentMonth = False,
      isNextMonth = True, fullDate = Some (midnight z (F + int n + int j))\<rparr>) [0..<42 - k - n]"
  let ?G = "generateCalendarDays z (Some t)"
  have R: "days_representable z (F - 6) (F + 41)"
    using assms(2) by (simp add: F_def y_def m_def)
  have v: "0 \<le> m" "m < 12" using getters_valid[of z t] by (simp_all add: m_def)
  have vp: "0 \<le> mp" "mp < 12" using v by (simp_all add: mp_def prev_month_def)
  have vn: "0 \<le> mn" "mn < 12" using v by (simp_all add: mn_def next_month_def)
  have g: "?G = A @ B @ C"
    and k6: "k \<le> 6" and nb: "28 \<le> n" "n \<le> 31"
    using generateCalendarDays_closed[OF assms(1), OF assms(2)]
    by (simp_all add: A_def B_def C_def y_def m_def yp_def mp_def dp_def k_def n_def F_def)
  have lA: "length A = k" and lB: "length B = n" and lC: "length C = 42 - k - n"
    by (simp_all add: A_def B_def C_def)
  have len: "length ?G = 42" using g lA lB lC k6 nb by simp
  have run: "map isCurrentMonth ?G =
      replicate k False @ replicate n True @ replicate (42 - k - n) False"
    unfolding g by (simp add: A_def B_def C_def o_def replicate_map_const)
  have nz: "int n = days_in_month y m"
    using days_in_month_bounds(1)[of y m] by (simp add: n_def month_length_def y_def m_def)
  have dpb: "28 \<le> dp" "dp \<le> 31" using days_in_month_bounds[of yp mp] by (simp_all add: dp_def)
  have md: "MakeDay y' m' d = MakeDay y' m' 1 + (d - 1)" for y' m' d
    by (rule MakeDay_from_first)
  have Mp: "MakeDay yp mp d = F - 1 - dp + d" for d
    using MakeDay_prev_month[OF v, of y d] md[of y m d]
    by (cases "m = 0") (simp_all add: yp_def mp_def prev_month_def dp_def F_def)
  have Mn: "MakeDay yn mn d = F + int n + d - 1" for d
    using MakeDay_next_month[OF v, of y d] md[of y m d] nz
    by (cases "m = 11") (simp_all add: yn_def mn_def next_month_def F_def)
  have Mc: "MakeDay y m d = F + d - 1" for d using md[of y m d] by (simp add: F_def)
  have nA: "(A @ B @ C) ! i = A ! i" if "i < k" for i
    using that lA by (simp add: nth_append)
  have nB: "(A @ B @ C) ! (k + i) = B ! i" if "i < n" for i
    using that lA lB by (simp add: nth_append)
  have nC: "(A @ B @ C) ! (k + n + i) = C ! i" if "i < 42 - k - n" for i
    using that lA lB lC by (simp add: nth_append)
  have fd: "fullDate (?G ! i) = Some (midnight z (F - int k + int i))" if "i < 42" for i
  proof -
    consider (a) "i < k" | (b) "k \<le> i" "i - k < n" | (c) "k + n \<le> i"
      by linarith
    then show ?thesis
    proof cases
      case a
      then show ?thesis unfolding g using nA[OF a] by (simp add: A_def)
    next
      case b
      define j where "j = i - k"
      have i: "i = k + j" and jn: "j < n" using b by (simp_all add: j_def)
      have X: "fullDate ((A @ B @ C) ! (k + j)) = Some (midnight z (F + int j))"
        using nB[OF jn] jn by (simp add: B_def)
      have E: "F - int k + int (k + j) = F + int j" by simp
      show ?thesis unfolding g i E by (rule X)
    next
      case c
      define j where "j = i - k - n"
      have i: "i = k + n + j" and l: "j < 42 - k - n" using c that by (simp_all add: j_def)
      have X: "fullDate ((A @ B @ C) ! (k + n + j)) = Some (midnight z (F + int n + int j))"
        using nC[OF l] l by (simp add: C_def)
      have E: "F - int k + int (k + n + j) = F + int n + int j" by simp
      show ?thesis unfolding g i E by (rule X)
    qed
  qed
  have kz: "int k = (F + 4 + 6) mod 7"
    by (simp add: k_def grid_lead_def F_def y_def m_def)
  have wd: "map_option (nowDay_of z) (fullDate (?G ! i)) = Some (int (i mod 7))" if "i < 42" for i
  proof -
    have "getDay z (midnight z (F - int k + int i)) = (F - int k + int i + 4) mod 7"
      using that k6 by (intro getDay_midnight[OF R]) simp_all
    then have "nowDay_of z (midnight z (F - int k + int i)) =
        (((F - (F + 4 + 6) mod 7 + int i) + 4) mod 7 + 6) mod 7"
      by (simp add: nowDay_of_def kz)
    also have "\<dots> = int i mod 7" by (rule monday_shift)
    finally show ?thesis using fd[OF that] by (simp add: zmod_int)
  qed
  have pA: "map_option (\<lambda>d. (getFullYear z d, getMonth z d)) (fullDate (?G ! i)) =
            Some (prev_month y m)
          \<and> cell_date (?G ! i) = map_option (getDate z) (fullDate (?G ! i))"
    if "i < k" for i
  proof -
    define d where "d = dp - (int k - 1 - int i)"
    have e: "MakeDay yp mp d = F - int k + int i" by (simp add: Mp d_def)
    have r: "1 \<le> d" "d \<le> days_in_month yp mp" using that k6 dpb by (simp_all add: d_def dp_def)
    have w: "F - 6 \<le> MakeDay yp mp d" "MakeDay yp mp d \<le> F + 41"
      using that k6 unfolding e by linarith+
    note G = getters_midnight[OF R w vp r, unfolded e]
    have c: "cell_date (?G ! i) = Some d"
      unfolding g using nA[OF that] that by (simp add: A_def d_def)
    have "i < 42" using that k6 by simp
    from fd[OF this] G c show ?thesis by (simp add: yp_def mp_def)
  qed
  have pB: "cell_date (?G ! (k + i)) = Some (1 + int i)
          \<and> map_option (\<lambda>d. (getFullYear z d, getMonth z d, getDate z d))
              (fullDate (?G ! (k + i))) = Some (y, m, 1 + int i)"
    if "i < n" for i
  proof -
    have e: "MakeDay y m (1 + int i) = F - int k + int (k + i)" by (simp add: Mc)
    have r: "1 \<le> 1 + int i" "1 + int i \<le> days_in_month y m" using that nz by simp_all
    have w: "F - 6 \<le> MakeDay y m (1 + int i)" "MakeDay y m (1 + int i) \<le> F + 41"
      using that nb unfolding e by simp_all
    note G = getters_midnight[OF R w v r, unfolded e]
    have c: "cell_date (?G ! (k + i)) = Some (1 + int i)"
      unfolding g using nB[OF that] that by (simp add: B_def)
    have "k + i < 42" using that k6 nb by simp
    from fd[OF this] G c show ?thesis by simp
  qed
  have pC: "cell_date (?G ! (k + n + i)) = Some (1 + int i)
          \<and> isNextMonth (?G ! (k + n + i))
          \<and> map_option (\<lambda>d. (getFullYear z d, getMonth z d, getDate z d))
              (fullDate (?G ! (k + n + i))) = Some (yn, mn, 1 + int i)"
    if "i < 42 - k - n" for i
  proof -
    have e: "MakeDay yn mn (1 + int i) = F - int k + int (k + n + i)" by (simp add: Mn)
    have "1 + int i \<le> 28" using that nb by linarith
    then have r: "1 \<le> 1 + int i" "1 + int i \<le> days_in_month yn mn"
      using days_in_month_bounds(1)[of yn mn] by simp_all
    have w: "F - 6 \<le> MakeDay yn mn (1 + int i)" "MakeDay yn mn (1 + int i) \<le> F + 41"
      using that unfolding e by simp_all
    note G = getters_midnight[OF R w vn r, unfolded e]
    have c: "cell_date (?G ! (k + n + i)) = Some (1 + int i)" "isNextMonth (?G ! (k + n + i))"
      unfolding g using nC[OF that] that by (simp_all add: C_def)
    have "k + n + i < 42" using that by simp
    from fd[OF this] G c show ?thesis by simp
  qed
  show ?thesis
    using len k6 run nz fd wd pA pB pC
    unfolding y_def m_def yn_def mn_def k_def n_def F_def
    by blast
qed

text \<open>
  Days within 99,999,990 days of 1 January 1970 are representable in a zone of fixed
  offset; the grid of November 2026 in Korea is an instance.
\<close>

lemma fixed_zone_representable:
  assumes "\<bar>c\<bar> \<le> msPerDay" "- 99999990 \<le> a" "b \<le> 99999990"
  shows "days_representable (fixed_zone c) a b"
proof -
  have "\<bar>n * msPerDay\<bar> < 2 ^ 53 \<and> \<bar>midnight (fixed_zone c) n\<bar> \<le> max_time
      \<and> Day (LocalTime (fixed_zone c) (midnight (fixed_zone c) n)) = n"
    if "a \<le> n" "n \<le> b" for n
  proof -
    have "\<bar>n\<bar> \<le> 99999990" using that assms by linarith
    then have "\<bar>n * 86400000\<bar> \<le> 99999990 * 86400000" by linarith
    then show ?thesis
      using assms(1)
      by (simp add: midnight_def fixed_zone_def LocalTime_def Day_def msPerDay_def max_time_def)
  qed
  then show ?thesis by (simp add: days_representable_def)
qed

lemma month_grid_november_2026:
  "getFullYear zone_seoul november_2026 = 2026
   \<and> getMonth zone_seoul november_2026 = 10
   \<and> grid_lead zone_seoul november_2026 = 6
   \<and> month_length zone_seoul november_2026 = 30
   \<and> length (generateCalendarDays zone_seoul (Some november_2026)) = 42
   \<and> map isCurrentMonth (generateCalendarDays zone_seoul (Some november_2026)) =
       replicate 6 False @ replicate 30 True @ replicate 6 False
   \<and> map_option (nowDay_of zone_seoul)
        (fullDate (generateCalendarDays zone_seoul (Some november_2026) ! 0)) = Some 0
   \<and> map_option (nowDay_of zone_seoul)
        (fullDate (generateCalendarDays zone_seoul (Some november_2026) ! 41)) = Some 6
   \<and> cell_date (generateCalendarDays zone_seoul (Some november_2026) ! 6) = Some 1
   \<and> cell_date (generateCalendarDays zone_seoul (Some november_2026) ! 36) = Some 1"
proof -
  have y: "getFullYear zone_seoul november_2026 = 2026" "getMonth zone_seoul november_2026 = 10"
    by code_simp+
  have q: "getFullYear zone_seoul november_2026 < 0 \<or> 99 < getFullYear zone_seoul november_2026"
    by (simp add: y)
  have F: "MakeDay 2026 10 1 = 20758" by code_simp
  have R0: "days_representable zone_seoul (20758 - 6) (20758 + 41)"
    unfolding zone_seoul_def
    by (rule fixed_zone_representable) (simp_all add: msPerDay_def)
  have R: "days_representable zone_seoul
      (MakeDay (getFullYear zone_seoul november_2026) (getMonth zone_seoul november_2026) 1 - 6)
      (MakeDay (getFullYear zone_seoul november_2026) (getMonth zone_seoul november_2026) 1 + 41)"
    unfolding y F by (rule R0)
  have k: "grid_lead zone_seoul november_2026 = 6" by code_simp
  have n: "month_length zone_seoul november_2026 = 30" by code_simp
  note g = month_grid[OF q R, unfolded k n y]
  from g have len: "length (generateCalendarDays zone_seoul (Some november_2026)) = 42" by blast
  from g have run: "map isCurrentMonth (generateCalendarDays zone_seoul (Some november_2026)) =
       replicate 6 False @ replicate 30 True @ replicate (42 - 6 - 30) False" by blast
  from g have wd: "\<forall>i<42. map_option (nowDay_of zone_seoul)
        (fullDate (generateCalendarDays zone_seoul (Some november_2026) ! i)) = Some (int (i mod 7))"
    by blast
  from g have cur: "\<forall>i<30.
      cell_date (generateCalendarDays zone_seoul (Some november_2026) ! (6 + i)) = Some (1 + int i)
      \<and> map_option (\<lambda>d. (getFullYear zone_seoul d, getMonth zone_seoul d, getDate zone_seoul d))
          (fullDate (generateCalendarDays zone_seoul (Some november_2026) ! (6 + i))) =
          Some (2026, 10, 1 + int i)" by blast
  from g have nxt: "\<forall>i<42 - 6 - 30.
      cell_date (generateCalendarDays zone_seoul (Some november_2026) ! (6 + 30 + i)) =
        Some (1 + int i)
      \<and> isNextMonth (generateCalendarDays zone_seoul (Some november_2026) ! (6 + 30 + i))
      \<and> map_option (\<lambda>d. (getFullYear zone_seoul d, getMonth zone_seoul d, getDate zone_seoul d))
          (fullDate (generateCalendarDays zone_seoul (Some november_2026) ! (6 + 30 + i))) =
          Some (fst (next_month 2026 10), snd (next_month 2026 10), 1 + int i)" by blast
  show ?thesis
    using y k n len run wd[rule_format, of 0] wd[rule_format, of 41]
      cur[rule_format, of 0] nxt[rule_format, of 0]
    by simp
qed

text \<open>
  At the end of the range of \<^verbatim>\<open>Date\<close> the window is not representable: for 13
  September 275760, the last day of that range, \<^verbatim>\<open>lastDay\<close> is an Invalid Date, the
  second loop runs no iteration, and the grid is 42 cells of the next month with invalid
  dates. For an Invalid Date as reference date it is the same.
\<close>

lemma month_grid_range_edge:
  "getFullYear zone_utc september_275760 = 275760
   \<and> getMonth zone_utc september_275760 = 8
   \<and> getDate zone_utc september_275760 = 13
   \<and> september_275760 = max_time
   \<and> map (\<lambda>c. (cell_date c, isCurrentMonth c, isNextMonth c, fullDate c))
        (generateCalendarDays zone_utc (Some september_275760)) =
       map (\<lambda>d. (Some d, False, True, None)) [1..42]
   \<and> generateCalendarDays zone_utc None =
       generateCalendarDays zone_utc (Some september_275760)"
  by code_simp

text \<open>
  C4 at a reference date in February of the year 0, a leap year, in UTC: the constructor
  calls read the year 0 as 1900 and build the grid of February 1900, with 28 cells of the
  current month where the month has 29 days. Every cell's date lies in the year 1900.
\<close>

theorem month_grid_year_0:
  "getFullYear zone_utc february_year_0 = 0
   \<and> getMonth zone_utc february_year_0 = 1
   \<and> getDate zone_utc february_year_0 = 15
   \<and> days_in_month 0 1 = 29
   \<and> month_length zone_utc february_year_0 = 29
   \<and> length (generateCalendarDays zone_utc (Some february_year_0)) = 42
   \<and> length (filter isCurrentMonth (generateCalendarDays zone_utc (Some february_year_0))) = 28
   \<and> map isCurrentMonth (generateCalendarDays zone_utc (Some february_year_0)) =
       replicate 3 False @ replicate 28 True @ replicate 11 False
   \<and> map (\<lambda>c. map_option (getFullYear zone_utc) (fullDate c))
        (generateCalendarDays zone_utc (Some february_year_0)) = replicate 42 (Some 1900)"
  by code_simp

section \<open>The upcoming notice\<close>

























text \<open>
  Across the start of daylight-saving time the difference is taken between instants: at
  01:30 in New York on 8 March 2026 an event at 03:15 starts 45 minutes later, the hour
  from 02:00 to 03:00 being skipped.
\<close>

lemma upcoming_notice_across_dst:
  "nowDay_of zone_new_york new_york_0130 = 6
   \<and> LocalTime zone_new_york new_york_0130 mod msPerDay = 3600000 + 30 * 60000
   \<and> upcoming zone_new_york new_york_0130 (event_at ''x'' ''03:15'' 6)
   \<and> useUpcomingNotice zone_new_york no_conv (Some [event_at ''x'' ''03:15'' 6]) new_york_0130 =
       Some \<lparr>eventId = ''x'', title = ''Math'', minutesLeft = Some 45\<rparr>"
  by code_simp

section \<open>Loading\<close>

lemma toString_nonempty: "toString n \<noteq> []"
  by (subst toString.simps) simp

lemma saved_calendars_None:
  "(saved_calendars J st = None) =
   (items st CALENDARS_KEY = None \<or> items st CALENDARS_KEY = Some []
    \<or> (\<exists>saved. items st CALENDARS_KEY = Some saved
          \<and> (JSON_parse J saved = None \<or> JSON_parse J saved = Some JOther
               \<or> JSON_parse J saved = Some (JArray []))))"
  by (auto simp: saved_calendars_def getItem_def split: option.splits json_value.splits)

lemma saved_calendars_Some:
  "(saved_calendars J st = Some cs) =
   (\<exists>saved. items st CALENDARS_KEY = Some saved \<and> saved \<noteq> []
      \<and> JSON_parse J saved = Some (JArray cs) \<and> cs \<noteq> [])"
  by (auto simp: saved_calendars_def getItem_def split: option.splits json_value.splits)

lemma keys_distinct: "CALENDARS_KEY \<noteq> SELECTED_CALENDAR_KEY"
  by (simp add: CALENDARS_KEY_def SELECTED_CALENDAR_KEY_def)

lemma persist_default_accepted:
  assumes "accepts st CALENDARS_KEY (JSON_stringify J [c])" "accepts st SELECTED_CALENDAR_KEY (c_id c)"
  shows "persist_default J c st =
         st\<lparr>items := (items st)(CALENDARS_KEY \<mapsto> JSON_stringify J [c],
                                 SELECTED_CALENDAR_KEY \<mapsto> c_id c)\<rparr>"
  using assms by (simp add: persist_default_def setItem_def)

lemma persist_default_rejected:
  assumes "\<not> accepts st CALENDARS_KEY (JSON_stringify J [c])"
  shows "persist_default J c st = st"
  using assms by (simp add: persist_default_def setItem_def)

text \<open>
  C6, as the code has it. Without a \<^verbatim>\<open>window\<close> the initialiser returns no calendars.
  In the browser, when the stored value is absent, empty, not parseable, or parses to
  something other than a non-empty array, the result is one default calendar: no
  templates, no events, the clock's milliseconds as id. It is written to storage with its
  id as the selection; if storage refuses the first write nothing is stored, and no failure
  leaves the initialiser. After both writes the selection read back is the default id, and
  when parsing inverts serialising on that calendar a later load returns it and writes
  nothing. When the stored value parses to a non-empty array, that array is returned and
  storage is left as it was.
\<close>

theorem init_calendars_default:
  "init_calendars J False now st = ([], st)
   \<and> (items st CALENDARS_KEY = None \<or> items st CALENDARS_KEY = Some []
       \<or> (\<exists>saved. items st CALENDARS_KEY = Some saved
             \<and> (JSON_parse J saved = None \<or> JSON_parse J saved = Some JOther
                  \<or> JSON_parse J saved = Some (JArray []))) \<longrightarrow>
       fst (init_calendars J True now st) =
         [\<lparr>c_id = toString now, c_name = default_calendar_name, templates = [], events = []\<rparr>]
       \<and> (accepts st CALENDARS_KEY (JSON_stringify J [default_calendar now])
            \<and> accepts st SELECTED_CALENDAR_KEY (toString now) \<longrightarrow>
            snd (init_calendars J True now st) =
              st\<lparr>items := (items st)
                   (CALENDARS_KEY \<mapsto> JSON_stringify J [default_calendar now],
                    SELECTED_CALENDAR_KEY \<mapsto> toString now)\<rparr>
            \<and> init_selectedCalendarId True (snd (init_calendars J True now st)) =
                Some (toString now)
            \<and> (JSON_stringify J [default_calendar now] \<noteq> []
                 \<and> JSON_parse J (JSON_stringify J [default_calendar now]) =
                     Some (JArray [default_calendar now]) \<longrightarrow>
                 init_calendars J True later (snd (init_calendars J True now st)) =
                   ([default_calendar now], snd (init_calendars J True now st))))
       \<and> (\<not> accepts st CALENDARS_KEY (JSON_stringify J [default_calendar now]) \<longrightarrow>
            snd (init_calendars J True now st) = st))
   \<and> (\<forall>saved cs. items st CALENDARS_KEY = Some saved \<and> saved \<noteq> []
          \<and> JSON_parse J saved = Some (JArray cs) \<and> cs \<noteq> [] \<longrightarrow>
        init_calendars J True now st = (cs, st))"
proof -
  let ?c = "default_calendar now"
  let ?st = "st\<lparr>items := (items st)(CALENDARS_KEY \<mapsto> JSON_stringify J [?c],
                                    SELECTED_CALENDAR_KEY \<mapsto> toString now)\<rparr>"
  have a: "init_calendars J False now st = ([], st)" by (simp add: init_calendars_def)
  have d: "init_calendars J True now st = ([?c], persist_default J ?c st)"
    if "saved_calendars J st = None"
    using that by (simp add: init_calendars_def)
  have id: "c_id ?c = toString now" by (simp add: default_calendar_def)
  have w: "persist_default J ?c st = ?st"
    if "accepts st CALENDARS_KEY (JSON_stringify J [?c])" "accepts st SELECTED_CALENDAR_KEY (toString now)"
    using persist_default_accepted[of st J ?c] that id by simp
  have sel: "init_selectedCalendarId True ?st = Some (toString now)"
    by (simp add: init_selectedCalendarId_def getItem_def toString_nonempty)
  have again: "init_calendars J True later ?st = ([?c], ?st)"
    if "JSON_stringify J [?c] \<noteq> []" "JSON_parse J (JSON_stringify J [?c]) = Some (JArray [?c])"
  proof -
    have "saved_calendars J ?st = Some [?c]"
      using that keys_distinct by (simp add: saved_calendars_Some)
    then show ?thesis by (simp add: init_calendars_def)
  qed
  have r: "persist_default J ?c st = st" if "\<not> accepts st CALENDARS_KEY (JSON_stringify J [?c])"
    using persist_default_rejected[OF that] .
  have b: "init_calendars J True now st = (cs, st)"
    if "items st CALENDARS_KEY = Some saved \<and> saved \<noteq> []
          \<and> JSON_parse J saved = Some (JArray cs) \<and> cs \<noteq> []" for saved cs
  proof -
    have "saved_calendars J st = Some cs" using that by (auto simp: saved_calendars_Some)
    then show ?thesis by (simp add: init_calendars_def)
  qed
  have F: "fst (init_calendars J True now st) =
         [\<lparr>c_id = toString now, c_name = default_calendar_name, templates = [], events = []\<rparr>]
       \<and> (accepts st CALENDARS_KEY (JSON_stringify J [default_calendar now])
            \<and> accepts st SELECTED_CALENDAR_KEY (toString now) \<longrightarrow>
            snd (init_calendars J True now st) = ?st
            \<and> init_selectedCalendarId True (snd (init_calendars J True now st)) =
                Some (toString now)
            \<and> (JSON_stringify J [default_calendar now] \<noteq> []
                 \<and> JSON_parse J (JSON_stringify J [default_calendar now]) =
                     Some (JArray [default_calendar now]) \<longrightarrow>
                 init_calendars J True later (snd (init_calendars J True now st)) =
                   ([default_calendar now], snd (init_calendars J True now st))))
       \<and> (\<not> accepts st CALENDARS_KEY (JSON_stringify J [default_calendar now]) \<longrightarrow>
            snd (init_calendars J True now st) = st)"
    if c: "items st CALENDARS_KEY = None \<or> items st CALENDARS_KEY = Some []
       \<or> (\<exists>saved. items st CALENDARS_KEY = Some saved
             \<and> (JSON_parse J saved = None \<or> JSON_parse J saved = Some JOther
                  \<or> JSON_parse J saved = Some (JArray [])))"
  proof -
    have N: "saved_calendars J st = None" using c by (simp only: saved_calendars_None)
    note D = d[OF N]
    have 1: "fst (init_calendars J True now st) =
         [\<lparr>c_id = toString now, c_name = default_calendar_name, templates = [], events = []\<rparr>]"
      unfolding D by (simp add: default_calendar_def)
    have 2: "snd (init_calendars J True now st) = ?st
            \<and> init_selectedCalendarId True (snd (init_calendars J True now st)) =
                Some (toString now)
            \<and> (JSON_stringify J [default_calendar now] \<noteq> []
                 \<and> JSON_parse J (JSON_stringify J [default_calendar now]) =
                     Some (JArray [default_calendar now]) \<longrightarrow>
                 init_calendars J True later (snd (init_calendars J True now st)) =
                   ([default_calendar now], snd (init_calendars J True now st)))"
      if "accepts st CALENDARS_KEY (JSON_stringify J [default_calendar now])
            \<and> accepts st SELECTED_CALENDAR_KEY (toString now)"
    proof -
      have s: "snd (init_calendars J True now st) = ?st"
        unfolding D using w that by simp
      show ?thesis unfolding s using sel again by simp
    qed
    have 3: "snd (init_calendars J True now st) = st"
      if "\<not> accepts st CALENDARS_KEY (JSON_stringify J [default_calendar now])"
      unfolding D using r[OF that] by simp
    show ?thesis using 1 2 3 by blast
  qed
  show ?thesis
    by (rule conjI[OF a], rule conjI, rule impI, erule F, intro allI impI, erule b)
qed

theorem init_calendars_default_witness:
  "items storage_blank CALENDARS_KEY = None
   \<and> fst (init_calendars json_sample True 1700000000000 storage_blank) =
       [default_calendar 1700000000000]
   \<and> items (snd (init_calendars json_sample True 1700000000000 storage_blank)) CALENDARS_KEY =
       Some ''[D]''
   \<and> items (snd (init_calendars json_sample True 1700000000000 storage_blank))
         SELECTED_CALENDAR_KEY = Some (toString 1700000000000)
   \<and> init_selectedCalendarId True
         (snd (init_calendars json_sample True 1700000000000 storage_blank)) =
       Some (toString 1700000000000)
   \<and> fst (init_calendars json_sample True 1800000000000
         (snd (init_calendars json_sample True 1700000000000 storage_blank))) =
       [default_calendar 1700000000000]
   \<and> items storage_corrupt CALENDARS_KEY = Some ''{bad''
   \<and> JSON_parse json_sample ''{bad'' = None
   \<and> fst (init_calendars json_sample True 1700000000000 storage_corrupt) =
       [default_calendar 1700000000000]
   \<and> snd (init_calendars json_sample True 1700000000000 storage_full) = storage_full
   \<and> items storage_saved CALENDARS_KEY = Some ''[A,B,C]''
   \<and> JSON_parse json_sample ''[A,B,C]'' = Some (JArray [cal_a, cal_b, cal_c])
   \<and> init_calendars json_sample True 1700000000000 storage_saved =
       ([cal_a, cal_b, cal_c], storage_saved)"
proof -
  let ?d = "default_calendar 1700000000000"
  have s: "JSON_stringify json_sample [?d] = ''[D]''"
    by (simp add: json_sample_def)
  have p: "JSON_parse json_sample ''[D]'' = Some (JArray [?d])"
    "JSON_parse json_sample ''{bad'' = None"
    "JSON_parse json_sample ''[A,B,C]'' = Some (JArray [cal_a, cal_b, cal_c])"
    by (simp_all add: json_sample_def)
  have i: "items storage_blank CALENDARS_KEY = None"
    "items storage_corrupt CALENDARS_KEY = Some ''{bad''"
    "items storage_full CALENDARS_KEY = None"
    "items storage_saved CALENDARS_KEY = Some ''[A,B,C]''"
    by (simp_all add: storage_blank_def storage_corrupt_def storage_full_def storage_saved_def)
  have acc: "accepts storage_blank CALENDARS_KEY (JSON_stringify json_sample [?d])
      \<and> accepts storage_blank SELECTED_CALENDAR_KEY (toString 1700000000000)"
    "\<not> accepts storage_full CALENDARS_KEY (JSON_stringify json_sample [?d])"
    by (simp_all add: storage_blank_def storage_full_def)
  have inv: "JSON_stringify json_sample [?d] \<noteq> []
      \<and> JSON_parse json_sample (JSON_stringify json_sample [?d]) = Some (JArray [?d])"
    using s p by simp
  note B = init_calendars_default [of json_sample 1700000000000 storage_blank 1800000000000,
      THEN conjunct2, THEN conjunct1, rule_format, OF disjI1, OF i(1)]
  note B2 = B[THEN conjunct2, THEN conjunct1, rule_format, OF acc(1)]
  note C = init_calendars_default [of json_sample 1700000000000 storage_corrupt 1800000000000,
      THEN conjunct2, THEN conjunct1, rule_format, OF disjI2, OF disjI2, OF exI,
      OF conjI, OF i(2), OF disjI1, OF p(2)]
  note F = init_calendars_default [of json_sample 1700000000000 storage_full 1800000000000,
      THEN conjunct2, THEN conjunct1, rule_format, OF disjI1, OF i(3)]
  note S = init_calendars_default [of json_sample 1700000000000 storage_saved 1800000000000,
      THEN conjunct2, THEN conjunct2, rule_format, of "''[A,B,C]''" "[cal_a, cal_b, cal_c]"]
  have b1: "fst (init_calendars json_sample True 1700000000000 storage_blank) = [?d]"
    using B[THEN conjunct1] by (simp add: default_calendar_def)
  have b2: "snd (init_calendars json_sample True 1700000000000 storage_blank) =
      storage_blank\<lparr>items := (items storage_blank)
        (CALENDARS_KEY \<mapsto> ''[D]'', SELECTED_CALENDAR_KEY \<mapsto> toString 1700000000000)\<rparr>"
    using B2[THEN conjunct1] s by simp
  have b3: "init_selectedCalendarId True
         (snd (init_calendars json_sample True 1700000000000 storage_blank)) =
       Some (toString 1700000000000)"
    using B2[THEN conjunct2, THEN conjunct1] .
  have b4: "init_calendars json_sample True 1800000000000
         (snd (init_calendars json_sample True 1700000000000 storage_blank)) =
       ([?d], snd (init_calendars json_sample True 1700000000000 storage_blank))"
    using B2[THEN conjunct2, THEN conjunct2, rule_format, OF inv] .
  have b5: "items (snd (init_calendars json_sample True 1700000000000 storage_blank)) CALENDARS_KEY =
       Some ''[D]''"
    "items (snd (init_calendars json_sample True 1700000000000 storage_blank))
         SELECTED_CALENDAR_KEY = Some (toString 1700000000000)"
    unfolding b2 using keys_distinct by simp_all
  have c1: "fst (init_calendars json_sample True 1700000000000 storage_corrupt) = [?d]"
    using C[THEN conjunct1] by (simp add: default_calendar_def)
  have f1: "snd (init_calendars json_sample True 1700000000000 storage_full) = storage_full"
    using F[THEN conjunct2, THEN conjunct2, rule_format, OF acc(2)] .
  have s1: "init_calendars json_sample True 1700000000000 storage_saved =
       ([cal_a, cal_b, cal_c], storage_saved)"
    using S i(4) p(3) by simp
  show ?thesis
    using i p b1 b3 b4 b5 c1 f1 s1 by simp
qed

text \<open>
  A stored value that is present and parses, to the empty array, is not returned: the
  default calendar is.
\<close>

theorem init_calendars_empty_array_counterexample:
  "items storage_brackets CALENDARS_KEY = Some ''[]''
   \<and> JSON_parse json_brackets ''[]'' = Some (JArray [])
   \<and> fst (init_calendars json_brackets True 1700000000000 storage_brackets) =
       [default_calendar 1700000000000]
   \<and> fst (init_calendars json_brackets True 1700000000000 storage_brackets) \<noteq> []"
  by (simp add: init_calendars_def saved_calendars_def getItem_def storage_brackets_def
      json_brackets_def)

section \<open>The attachment ceiling\<close>

lemma foldl_counted:
  "foldl (\<lambda>sum att. sum + counted_size att) a atts = a + sum_list (map counted_size atts)"
  by (induction atts arbitrary: a) simp_all

lemma file_loop_prefix:
  "\<exists>k\<le>length fs.
     file_loop rd fs tot acc = (acc @ map (readFile rd) (take k fs), k < length fs)
     \<and> (tot \<le> MAX_TOTAL_ATTACHMENT_SIZE \<longrightarrow>
          tot + sum_list (map f_size (take k fs)) \<le> MAX_TOTAL_ATTACHMENT_SIZE)
     \<and> (k < length fs \<longrightarrow>
          tot + sum_list (map f_size (take (Suc k) fs)) > MAX_TOTAL_ATTACHMENT_SIZE)"
proof (induction fs arbitrary: tot acc)
  case Nil
  show ?case by simp
next
  case (Cons f fs)
  show ?case
  proof (cases "tot + f_size f > MAX_TOTAL_ATTACHMENT_SIZE")
    case True
    then show ?thesis by (intro exI[of _ 0]) simp
  next
    case False
    from Cons.IH[of "tot + f_size f" "acc @ [readFile rd f]"]
    obtain k where k: "k \<le> length fs"
      "file_loop rd fs (tot + f_size f) (acc @ [readFile rd f]) =
         ((acc @ [readFile rd f]) @ map (readFile rd) (take k fs), k < length fs)"
      "tot + f_size f \<le> MAX_TOTAL_ATTACHMENT_SIZE \<longrightarrow>
          tot + f_size f + sum_list (map f_size (take k fs)) \<le> MAX_TOTAL_ATTACHMENT_SIZE"
      "k < length fs \<longrightarrow>
          tot + f_size f + sum_list (map f_size (take (Suc k) fs)) > MAX_TOTAL_ATTACHMENT_SIZE"
      by blast
    show ?thesis
      using False k by (intro exI[of _ "Suc k"]) (simp add: add.assoc)
  qed
qed

lemma handleFileChange_prefix:
  "\<exists>k\<le>length files.
     handleFileChange rd (Some files) atts =
       (atts @ map (readFile rd) (take k files), k < length files)
     \<and> (sum_list (map counted_size atts) \<le> MAX_TOTAL_ATTACHMENT_SIZE \<longrightarrow>
          sum_list (map counted_size atts) + sum_list (map f_size (take k files))
            \<le> MAX_TOTAL_ATTACHMENT_SIZE)
     \<and> (k < length files \<longrightarrow>
          sum_list (map counted_size atts) + sum_list (map f_size (take (Suc k) files))
            > MAX_TOTAL_ATTACHMENT_SIZE)"
proof -
  from file_loop_prefix[of files rd "sum_list (map counted_size atts)" "[]"]
  obtain k where k: "k \<le> length files"
    "file_loop rd files (sum_list (map counted_size atts)) [] =
       (map (readFile rd) (take k files), k < length files)"
    "sum_list (map counted_size atts) \<le> MAX_TOTAL_ATTACHMENT_SIZE \<longrightarrow>
       sum_list (map counted_size atts) + sum_list (map f_size (take k files))
         \<le> MAX_TOTAL_ATTACHMENT_SIZE"
    "k < length files \<longrightarrow>
       sum_list (map counted_size atts) + sum_list (map f_size (take (Suc k) files))
         > MAX_TOTAL_ATTACHMENT_SIZE"
    by auto
  have "handleFileChange rd (Some files) atts =
      (atts @ map (readFile rd) (take k files), k < length files)"
    using k(2) by (simp add: handleFileChange_def foldl_counted)
  then show ?thesis using k(1,3,4) by blast
qed

text \<open>
  C7 at a template that is edited after it was saved. A 15 MB file is attached and the
  template saved; the form loads the attachment back without its \<^verbatim>\<open>File\<close>, counts it
  as 0 bytes, and accepts a second 15 MB file without an alert, although the two
  attachments hold 30 MB against the ceiling of 20 MB. In one form session the same
  second file is refused.
\<close>

theorem attachment_ceiling_bypassed:
  "handleFileChange rd (Some [file_a]) [] = ([readFile rd file_a], False)
   \<and> handleFileChange rd (Some [file_b]) [readFile rd file_a] = ([readFile rd file_a], True)
   \<and> populate_attachments
         (Some (tmpl_math\<lparr>t_attachments := Some (serializableAttachments [readFile rd file_a])\<rparr>)) =
       [serializable (readFile rd file_a)]
   \<and> handleFileChange rd (Some [file_b]) [serializable (readFile rd file_a)] =
       ([serializable (readFile rd file_a), readFile rd file_b], False)
   \<and> map fileData [serializable (readFile rd file_a), readFile rd file_b] =
       [Some (rd file_a), Some (rd file_b)]
   \<and> f_size file_a + f_size file_b = 31457280
   \<and> MAX_TOTAL_ATTACHMENT_SIZE = 20971520"
  by (simp add: handleFileChange_def populate_attachments_def serializableAttachments_def
      serializable_def readFile_def counted_size_def MAX_TOTAL_ATTACHMENT_SIZE_def file_a_def
      file_b_def tmpl_math_def)

section \<open>The template copy of addEvent\<close>

lemma selectedCalendar_refs_one: "selectedCalendar_refs store_refs_one =
    Some \<lparr>cr_id = ''a'', cr_name = ''A'', cr_templates = [0], cr_events = []\<rparr>"
  by (simp add: selectedCalendar_refs_def store_refs_one_def)

lemma addEvent_refs_eq:
  assumes "selectedCalendar_refs s = Some sel" and "template_objs h (edr_template d) = Some ob"
  shows "addEvent_refs now d s h =
      (s\<lparr>sr_calendars :=
           map (\<lambda>c. if cr_id c = cr_id sel
                then c\<lparr>cr_events := cr_events c @
                       [\<lparr>eo_id = toString now, eo_templateId = o_id ob, eo_template = next_addr h,
                         eo_startTime = edr_startTime d, eo_endTime = edr_endTime d,
                         eo_day = edr_day d\<rparr>]\<rparr>
                else c) (sr_calendars s)\<rparr>,
       h\<lparr>template_objs := (template_objs h)(next_addr h \<mapsto> ob),
         next_addr := Suc (next_addr h)\<rparr>)"
  using assms by (simp add: addEvent_refs_def spread_template_def)

lemma template_objs_heap_math: "template_objs heap_math (edr_template edata_ref_math) = Some obj_math"
  by (simp add: heap_math_def edata_ref_math_def)

text \<open>
  C2, as the code has it. With a selected calendar, a template object at the supplied
  reference and an unused next address, \<^verbatim>\<open>addEvent\<close> appends to the calendars with
  the selected id an event whose id is the clock's milliseconds and whose template is a
  newly allocated object, different from the supplied one, with the supplied object's
  fields. The supplied object is left as it was, the stored template reads as the supplied
  one did at the call, and assigning any new fields to the supplied object afterwards
  leaves the stored template's value as it is.
\<close>

theorem addEvent_copies_one_level:
  assumes "selectedCalendar_refs s = Some sel"
    and "template_objs h (edr_template d) = Some ob"
    and "template_objs h (next_addr h) = None"
  shows "sr_calendars (fst (addEvent_refs now d s h)) =
      map (\<lambda>c. if cr_id c = cr_id sel
                then c\<lparr>cr_events := cr_events c @
                       [\<lparr>eo_id = toString now, eo_templateId = o_id ob, eo_template = next_addr h,
                         eo_startTime = edr_startTime d, eo_endTime = edr_endTime d,
                         eo_day = edr_day d\<rparr>]\<rparr>
                else c) (sr_calendars s)
    \<and> next_addr h \<noteq> edr_template d
    \<and> template_objs h (next_addr h) = None
    \<and> template_objs (snd (addEvent_refs now d s h)) (next_addr h) = Some ob
    \<and> template_objs (snd (addEvent_refs now d s h)) (edr_template d) = Some ob
    \<and> read_template (snd (addEvent_refs now d s h)) (next_addr h) = read_template h (edr_template d)
    \<and> (\<forall>ob'. read_template (assign_fields (snd (addEvent_refs now d s h)) (edr_template d) ob')
                (next_addr h) =
              read_template (snd (addEvent_refs now d s h)) (next_addr h))"
proof -
  have ne: "next_addr h \<noteq> edr_template d"
    using assms(2,3) by auto
  have fresh: "template_objs h (next_addr h) = None"
    using assms(3) .
  note r = addEvent_refs_eq[OF assms(1,2), of now]
  show ?thesis
    unfolding r using ne fresh assms(2)
    by (simp add: read_template_def assign_fields_def cong: option.case_cong)
qed

theorem addEvent_copies_one_level_witness:
  "selectedCalendar_refs store_refs_one =
     Some \<lparr>cr_id = ''a'', cr_name = ''A'', cr_templates = [0], cr_events = []\<rparr>
   \<and> template_objs heap_math (edr_template edata_ref_math) = Some obj_math
   \<and> template_objs heap_math (next_addr heap_math) = None
   \<and> next_addr heap_math = 2
   \<and> map cr_events
        (sr_calendars (fst (addEvent_refs 1700000000000 edata_ref_math store_refs_one heap_math))) =
       [[\<lparr>eo_id = toString 1700000000000, eo_templateId = ''t1'', eo_template = 2,
          eo_startTime = ''09:00'', eo_endTime = ''10:00'', eo_day = 0\<rparr>]]
   \<and> read_template (snd (addEvent_refs 1700000000000 edata_ref_math store_refs_one heap_math)) 2 =
       read_template heap_math 0
   \<and> read_template
        (assign_fields (snd (addEvent_refs 1700000000000 edata_ref_math store_refs_one heap_math)) 0
           (obj_math\<lparr>o_name := ''Changed'', o_duration := 120, o_urls := None\<rparr>)) 2 =
       read_template heap_math 0
   \<and> map_option t_name (read_template heap_math 0) = Some ''Math''"
proof -
  have f: "template_objs heap_math (next_addr heap_math) = None" "next_addr heap_math = 2"
    "edr_template edata_ref_math = 0"
    by (simp_all add: heap_math_def edata_ref_math_def)
  have n: "map_option t_name (read_template heap_math 0) = Some ''Math''"
    by (simp add: read_template_def heap_math_def obj_math_def)
  note T = addEvent_copies_one_level[OF selectedCalendar_refs_one template_objs_heap_math f(1),
      of 1700000000000, unfolded f]
  have e: "map cr_events
        (sr_calendars (fst (addEvent_refs 1700000000000 edata_ref_math store_refs_one heap_math))) =
       [[\<lparr>eo_id = toString 1700000000000, eo_templateId = ''t1'', eo_template = 2,
          eo_startTime = ''09:00'', eo_endTime = ''10:00'', eo_day = 0\<rparr>]]"
    unfolding T[THEN conjunct1]
    by (simp add: store_refs_one_def obj_math_def edata_ref_math_def)
  from T have r: "read_template (snd (addEvent_refs 1700000000000 edata_ref_math store_refs_one heap_math)) 2 =
       read_template heap_math 0" by blast
  from T have a: "\<forall>ob'. read_template
        (assign_fields (snd (addEvent_refs 1700000000000 edata_ref_math store_refs_one heap_math)) 0 ob') 2 =
       read_template (snd (addEvent_refs 1700000000000 edata_ref_math store_refs_one heap_math)) 2"
    by blast
  show ?thesis
    using selectedCalendar_refs_one template_objs_heap_math f e r a[rule_format] n by simp
qed

text \<open>
  The copy is one level deep: the stored template refers to the same \<^verbatim>\<open>urls\<close> array
  as the original, so pushing a URL onto the original's array changes what the stored
  event's template reads. And the id is the clock reading: two events added at the same
  millisecond, here one at 09:00 and one at 11:00, are stored with the same id.
\<close>

theorem addEvent_shares_arrays_counterexample:
  "map eo_template (concat (map cr_events
      (sr_calendars (fst (addEvent_refs 1700000000000 edata_ref_math store_refs_one heap_math))))) = [2]
   \<and> map_option t_urls
       (read_template (snd (addEvent_refs 1700000000000 edata_ref_math store_refs_one heap_math)) 2) =
       Some (Some [''https://example.org''])
   \<and> map_option t_urls
       (read_template
          (push_url (snd (addEvent_refs 1700000000000 edata_ref_math store_refs_one heap_math))
             0 ''https://changed.example'') 2) =
       Some (Some [''https://example.org'', ''https://changed.example''])
   \<and> map (\<lambda>e. (eo_id e, eo_startTime e)) (concat (map cr_events (sr_calendars (fst
        (addEvent_refs 1700000000000 (edata_ref_math\<lparr>edr_startTime := ''11:00''\<rparr>)
           (fst (addEvent_refs 1700000000000 edata_ref_math store_refs_one heap_math))
           (snd (addEvent_refs 1700000000000 edata_ref_math store_refs_one heap_math))))))) =
       [(toString 1700000000000, ''09:00''), (toString 1700000000000, ''11:00'')]"
  by (simp add: addEvent_refs_def selectedCalendar_refs_def spread_template_def
      edata_ref_math_def heap_math_def obj_math_def read_template_def push_url_def
      store_refs_one_def)



section \<open>Day-of-week index\<close>

lemma getDay_range: "0 \<le> getDay z t \<and> getDay z t \<le> 6"
  by (simp add: getDay_def WeekDay_def)

text \<open>
  C9. For every date, in every time zone, the index is \<open>(getDay + 6) mod 7\<close> over the
  native weekday (0 = Sunday), which sends Sunday, Monday, ..., Saturday to 6, 0, 1, 2, 3,
  4, 5; the header's conditional form computes the same index; the month view filters
  events by it (and finds none for a cell whose date is invalid); and 1 January 2025, a
  Wednesday, has index 2, in UTC, in Korea and in New York.
\<close>

theorem day_index_convention:
  "nowDay_of z t = (getDay z t + 6) mod 7
   \<and> nowDay_of z t = [6, 0, 1, 2, 3, 4, 5] ! nat (getDay z t)
   \<and> adjustedDay (getDay z t) = nowDay_of z t
   \<and> 0 \<le> getDay z t \<and> getDay z t \<le> 6
   \<and> map (\<lambda>w. (w + 6) mod 7) [0, 1, 2, 3, 4, 5, 6] = [6, 0, 1, 2, 3, 4, 5 :: int]
   \<and> map adjustedDay [0, 1, 2, 3, 4, 5, 6] = [6, 0, 1, 2, 3, 4, 5]
   \<and> getEventsForDay z evs c =
       (if isCurrentMonth c
        then (case fullDate c of
                None \<Rightarrow> []
              | Some d \<Rightarrow> filter (\<lambda>e. e_day e = nowDay_of z d) evs)
        else [])
   \<and> map_option (getDay zone_utc) (new_Date zone_utc (Some 2025) (Some 0) (Some 1) (Fin 0) (Fin 0)) = Some 3
   \<and> map_option (nowDay_of zone_utc) (new_Date zone_utc (Some 2025) (Some 0) (Some 1) (Fin 0) (Fin 0)) = Some 2
   \<and> map_option (getDay zone_seoul) (new_Date zone_seoul (Some 2025) (Some 0) (Some 1) (Fin 0) (Fin 0)) = Some 3
   \<and> map_option (nowDay_of zone_seoul) (new_Date zone_seoul (Some 2025) (Some 0) (Some 1) (Fin 0) (Fin 0)) = Some 2
   \<and> map_option (getDay zone_new_york) (new_Date zone_new_york (Some 2025) (Some 0) (Some 1) (Fin 0) (Fin 0)) = Some 3
   \<and> map_option (nowDay_of zone_new_york) (new_Date zone_new_york (Some 2025) (Some 0) (Some 1) (Fin 0) (Fin 0)) = Some 2"
proof -
  have r: "0 \<le> getDay z t" "getDay z t \<le> 6" using getDay_range by auto
  have e: "w - 1 = (w + 6) mod 7" if "0 \<le> w" "w \<le> 6" "w \<noteq> 0" for w :: int
    using that by presburger
  have a: "adjustedDay (getDay z t) = (getDay z t + 6) mod 7"
    using r e unfolding adjustedDay_def by (cases "getDay z t = 0") simp_all
  have "w = 0 \<or> w = 1 \<or> w = 2 \<or> w = 3 \<or> w = 4 \<or> w = 5 \<or> w = 6"
    if "0 \<le> w" "w \<le> 6" for w :: int
    using that by presburger
  then have "getDay z t = 0 \<or> getDay z t = 1 \<or> getDay z t = 2 \<or> getDay z t = 3
      \<or> getDay z t = 4 \<or> getDay z t = 5 \<or> getDay z t = 6"
    using r by blast
  then have l: "(getDay z t + 6) mod 7 = [6, 0, 1, 2, 3, 4, 5] ! nat (getDay z t)"
    by (elim disjE) simp_all
  have w: "map_option (getDay zone_utc) (new_Date zone_utc (Some 2025) (Some 0) (Some 1) (Fin 0) (Fin 0)) = Some 3"
    "map_option (nowDay_of zone_utc) (new_Date zone_utc (Some 2025) (Some 0) (Some 1) (Fin 0) (Fin 0)) = Some 2"
    "map_option (getDay zone_seoul) (new_Date zone_seoul (Some 2025) (Some 0) (Some 1) (Fin 0) (Fin 0)) = Some 3"
    "map_option (nowDay_of zone_seoul) (new_Date zone_seoul (Some 2025) (Some 0) (Some 1) (Fin 0) (Fin 0)) = Some 2"
    "map_option (getDay zone_new_york) (new_Date zone_new_york (Some 2025) (Some 0) (Some 1) (Fin 0) (Fin 0)) = Some 3"
    "map_option (nowDay_of zone_new_york) (new_Date zone_new_york (Some 2025) (Some 0) (Some 1) (Fin 0) (Fin 0)) = Some 2"
    by code_simp+
  have m: "map adjustedDay [0, 1, 2, 3, 4, 5, 6] = [6, 0, 1, 2, 3, 4, 5]"
    by (simp add: adjustedDay_def)
  have g: "getEventsForDay z evs c =
       (if isCurrentMonth c
        then (case fullDate c of
                None \<Rightarrow> []
              | Some d \<Rightarrow> filter (\<lambda>e. e_day e = nowDay_of z d) evs)
        else [])"
    by (simp add: getEventsForDay_def nowDay_of_def Let_def split: option.splits)
  show ?thesis
    using r a l w m g by (simp add: nowDay_of_def)
qed

end
